theory Spec2Isabelle
  imports Complex_Main "HOL-Library.Char_ord" "HOL-Library.List_Lexorder"
    "HOL-Library.Multiset" "HOL-Library.AList"
begin

section \<open>PedigreeMaker.js: data model\<close>

text \<open>
  The embedding follows \<^verbatim>\<open>src/PedigreeMaker.js\<close> (version 2.0.0, the interactive class).
  JavaScript numbers are modelled as \<^typ>\<open>real\<close>: finite values with exact arithmetic.
  Person ids are strings; \<^verbatim>\<open>Array.prototype.sort()\<close> without a comparator orders strings
  by their code units, which is the lexicographic order on \<^typ>\<open>string\<close>.
  An absent optional field (\<^verbatim>\<open>mate\<close>, \<^verbatim>\<open>parents\<close>, \<^verbatim>\<open>phenotypes\<close>) is \<^term>\<open>None\<close>.
  Ids are taken not to be names that every JavaScript object inherits
  (\<^verbatim>\<open>constructor\<close>, \<^verbatim>\<open>toString\<close>, ...), so that a lookup in the coordinate index
  finds only what a render stored there.
\<close>

record point =
  x_coord :: real
  y_coord :: real

record person =
  person_id :: string
  name :: string
  sex :: string
  pos :: point
  mate :: "string option"
  parents :: "string list option"
  phenotypes :: "string list option"
  isProband :: bool

record style =
  facecolor :: "string option"
  description :: string

record pad =
  pad_top :: real
  pad_left :: real

record configuration =
  nodeWidth :: real
  nodeHeight :: real
  hSpacing :: real
  vSpacing :: real
  lineWidth :: real
  lineColor :: string
  font :: string
  probandArrowSize :: real
  padding :: pad
  autoLayoutOptimize :: bool
  interactive :: bool
  phenotypeStyles :: "(string \<times> style) list"

text \<open>The \<^verbatim>\<open>defaults\<close> object of the constructor.\<close>

definition defaults :: configuration where
  "defaults = \<lparr> nodeWidth = 50, nodeHeight = 50, hSpacing = 100, vSpacing = 120,
      lineWidth = 2, lineColor = ''#333'', font = ''12px Arial'', probandArrowSize = 15,
      padding = \<lparr> pad_top = 50, pad_left = 50 \<rparr>,
      autoLayoutOptimize = True, interactive = True,
      phenotypeStyles = [(''default_affected'',
          \<lparr> facecolor = Some ''#a9a9a9'', description = ''Affected'' \<rparr>)] \<rparr>"

text \<open>JavaScript truthiness of an optional string: defined and not the empty string.\<close>

definition truthy :: "string option \<Rightarrow> bool" where
  "truthy v = (case v of None \<Rightarrow> False | Some s \<Rightarrow> s \<noteq> [])"

section \<open>Layout engine\<close>

text \<open>\<^verbatim>\<open>_getPixelCoords(gridX, gridY)\<close>, lines 297-302.\<close>

definition getPixelCoords :: "configuration \<Rightarrow> real \<Rightarrow> real \<Rightarrow> point" where
  "getPixelCoords cfg gridX gridY =
     \<lparr> x_coord = gridX * hSpacing cfg + pad_left (padding cfg),
       y_coord = gridY * vSpacing cfg + pad_top (padding cfg) \<rparr>"

text \<open>
  The pixel-to-grid conversion written inline in \<^verbatim>\<open>_handleMouseMove\<close>, lines 186-191:
  divide, \<^verbatim>\<open>Math.round\<close> (which is \<open>\<lfloor>v + 1/2\<rfloor>\<close>, the function \<^term>\<open>round\<close>),
  then \<^verbatim>\<open>Math.max(0, _)\<close>. A spacing of zero makes the quotient \<^verbatim>\<open>NaN\<close> or infinite in
  JavaScript, which is outside the finite numbers modelled here: the result is
  \<^term>\<open>None\<close> then.
\<close>

definition pixelToGrid :: "configuration \<Rightarrow> real \<Rightarrow> real \<Rightarrow> point option" where
  "pixelToGrid cfg newPixelX newPixelY =
     (if hSpacing cfg = 0 \<or> vSpacing cfg = 0 then None
      else
        let newGridX = round ((newPixelX - pad_left (padding cfg)) / hSpacing cfg);
            newGridY = round ((newPixelY - pad_top (padding cfg)) / vSpacing cfg)
        in Some \<lparr> x_coord = of_int (max 0 newGridX), y_coord = of_int (max 0 newGridY) \<rparr>)"

text \<open>
  \<^verbatim>\<open>_optimizeLayout\<close>, lines 304-330. The persons are objects mutated in place; the model
  addresses them by their index in \<^verbatim>\<open>this.data\<close> and returns the updated list.
  \<^verbatim>\<open>person.parents?.sort()\<close> sorts the array in place, so the step writes the sorted
  arrays back before comparing them. \<^verbatim>\<open>JSON.stringify\<close> is injective on arrays of strings,
  so comparing the serialisations is comparing the sorted lists; \<^verbatim>\<open>undefined\<close> on both
  sides compares equal, which the final conjunct of the source rules out.
\<close>

definition sortParents :: "person \<Rightarrow> person" where
  "sortParents p = p\<lparr> parents := map_option sort (parents p) \<rparr>"

definition areSiblings :: "person \<Rightarrow> person \<Rightarrow> bool" where
  "areSiblings p ob =
     (map_option sort (parents p) = map_option sort (parents ob) \<and> parents p \<noteq> None)"

definition setX :: "real \<Rightarrow> person \<Rightarrow> person" where
  "setX v p = p\<lparr> pos := (pos p)\<lparr> x_coord := v \<rparr> \<rparr>"

definition obstacle_step :: "nat \<Rightarrow> string \<Rightarrow> real \<Rightarrow> real \<Rightarrow> person list \<Rightarrow> nat \<Rightarrow> person list" where
  "obstacle_step i partnerId lineStartX lineEndX ps j =
     (let p = ps ! i; ob = ps ! j in
      if person_id ob \<noteq> person_id p \<and> person_id ob \<noteq> partnerId
           \<and> y_coord (pos ob) = y_coord (pos p)
           \<and> x_coord (pos ob) > lineStartX \<and> x_coord (pos ob) < lineEndX
      then
        (if areSiblings p ob
         then ps[i := setX (x_coord (pos ob)) (sortParents p),
                 j := setX (x_coord (pos p)) (sortParents ob)]
         else ps[i := sortParents p, j := sortParents ob])
      else ps)"

definition person_step :: "person list \<Rightarrow> nat \<Rightarrow> person list" where
  "person_step ps i =
     (let p = ps ! i in
      if truthy (mate p) then
        (case find (\<lambda>q. Some (person_id q) = mate p) ps of
           None \<Rightarrow> ps
         | Some partner \<Rightarrow>
             let lineStartX = min (x_coord (pos p)) (x_coord (pos partner));
                 lineEndX = max (x_coord (pos p)) (x_coord (pos partner))
             in foldl (obstacle_step i (person_id partner) lineStartX lineEndX) ps
                  [0..<length ps])
      else ps)"

definition optimizeLayout :: "configuration \<Rightarrow> person list \<Rightarrow> person list" where
  "optimizeLayout cfg ps =
     (if \<not> autoLayoutOptimize cfg then ps
      else foldl person_step ps [0..<length ps])"

section \<open>Drawing surface\<close>

text \<open>
  The canvas context is write-only for the engine: a render is the sequence of context
  calls and property assignments it issues, in order. An exception leaves the calls made
  before it on the surface, so a drawing routine returns the calls it made together with
  the error that interrupted it, if any.
  \<^verbatim>\<open>TypeError\<close> is the exception of reading a property of \<^verbatim>\<open>undefined\<close>;
  \<^verbatim>\<open>CanvasNotFound\<close> is the \<^verbatim>\<open>Error\<close> thrown by the constructor.
\<close>

datatype cmd =
    SetStrokeStyle string | SetLineWidth real | SetFillStyle string | SetFont string
  | SetTextAlign string | SetShadowColor string | SetShadowBlur real
  | BeginPath | ClosePath | MoveTo real real | LineTo real real
  | Arc real real real real real | Rect real real real real
  | FillRect real real real real | ClearRect real real real real
  | Fill | Stroke | FillText string real real

datatype error = CanvasNotFound | TypeError

type_synonym drawn = "cmd list \<times> error option"

text \<open>\<^verbatim>\<open>String.prototype.split\<close> with a one-character separator, and \<^verbatim>\<open>Array.prototype.join\<close>.\<close>

fun split_on :: "char \<Rightarrow> string \<Rightarrow> string list" where
  "split_on c [] = [[]]"
| "split_on c (a # as) =
     (if a = c then [] # split_on c as
      else (case split_on c as of [] \<Rightarrow> [[a]] | w # ws \<Rightarrow> (a # w) # ws))"

fun join :: "string \<Rightarrow> string list \<Rightarrow> string" where
  "join sep [] = []"
| "join sep [a] = a"
| "join sep (a # b # bs) = a @ sep @ join sep (b # bs)"

section \<open>Render pipeline: nodes\<close>

text \<open>\<^verbatim>\<open>_drawText(text, x, y)\<close>, lines 410-418.\<close>

definition drawText :: "configuration \<Rightarrow> string \<Rightarrow> real \<Rightarrow> real \<Rightarrow> cmd list" where
  "drawText cfg text x y =
     [SetFillStyle (lineColor cfg), SetFont (font cfg), SetTextAlign ''center'']
     @ map (\<lambda>(i, line). FillText line x (y + 10 + real i * 14))
         (enumerate 0 (split_on (CHR 0x0A) text))"

text \<open>
  The style of a phenotype id: \<^verbatim>\<open>this.config.phenotypes[phenoId] ||
  this.config.phenotypes['default_affected']\<close>. With neither entry the style is
  \<^verbatim>\<open>undefined\<close> and reading its \<^verbatim>\<open>facecolor\<close> throws.
\<close>

definition styleOf :: "configuration \<Rightarrow> string \<Rightarrow> style option" where
  "styleOf cfg phenoId =
     (case map_of (phenotypeStyles cfg) phenoId of
        Some s \<Rightarrow> Some s
      | None \<Rightarrow> map_of (phenotypeStyles cfg) ''default_affected'')"

text \<open>One iteration of the pie loop (lines 385-395) and of the bar loop (lines 400-406).
  \<^verbatim>\<open>if (style.facecolor)\<close> holds for a colour that is defined and not the empty string.\<close>

definition wedge :: "configuration \<Rightarrow> real \<Rightarrow> real \<Rightarrow> real \<Rightarrow> real \<Rightarrow> string \<Rightarrow> nat \<Rightarrow> error + cmd list" where
  "wedge cfg x y radius angleStep phenoId i =
     (case styleOf cfg phenoId of
        None \<Rightarrow> Inl TypeError
      | Some st \<Rightarrow>
          (case facecolor st of
             None \<Rightarrow> Inr []
           | Some colour \<Rightarrow>
               if colour = [] then Inr []
               else Inr [SetFillStyle colour, BeginPath, MoveTo x y,
                         Arc x y radius (angleStep * real i) (angleStep * (real i + 1)),
                         ClosePath, Fill]))"

definition bar :: "configuration \<Rightarrow> real \<Rightarrow> real \<Rightarrow> real \<Rightarrow> real \<Rightarrow> string \<Rightarrow> nat \<Rightarrow> error + cmd list" where
  "bar cfg x y barWidth startX phenoId i =
     (case styleOf cfg phenoId of
        None \<Rightarrow> Inl TypeError
      | Some st \<Rightarrow>
          (case facecolor st of
             None \<Rightarrow> Inr []
           | Some colour \<Rightarrow>
               if colour = [] then Inr []
               else Inr [SetFillStyle colour,
                         FillRect (startX + real i * barWidth) (y - nodeHeight cfg / 2)
                           barWidth (nodeHeight cfg)]))"

text \<open>\<^verbatim>\<open>phenotypes.forEach((phenoId, i) => ...)\<close>: the iterations in order, stopping at
  the first exception.\<close>

fun forEachPheno :: "(string \<Rightarrow> nat \<Rightarrow> error + cmd list) \<Rightarrow> string list \<Rightarrow> nat \<Rightarrow> drawn" where
  "forEachPheno f [] i = ([], None)"
| "forEachPheno f (phenoId # rest) i =
     (case f phenoId i of
        Inl e \<Rightarrow> ([], Some e)
      | Inr cs \<Rightarrow> (case forEachPheno f rest (Suc i) of (cs', e) \<Rightarrow> (cs @ cs', e)))"

text \<open>\<^verbatim>\<open>_drawPhenotypeFill(person, x, y)\<close>, lines 376-408; \<open>phs\<close> is \<^verbatim>\<open>person.phenotypes\<close>.\<close>

definition drawPhenotypeFill :: "configuration \<Rightarrow> person \<Rightarrow> string list \<Rightarrow> real \<Rightarrow> real \<Rightarrow> drawn" where
  "drawPhenotypeFill cfg p phs x y =
     (let numPhenotypes = length phs in
      if numPhenotypes = 0 then ([], None)
      else if sex p = ''F'' then
        (let radius = nodeWidth cfg / 2;
             angleStep = (2 * pi) / real numPhenotypes
         in forEachPheno (wedge cfg x y radius angleStep) phs 0)
      else if sex p = ''M'' then
        (let barWidth = nodeWidth cfg / real numPhenotypes;
             startX = x - nodeWidth cfg / 2
         in forEachPheno (bar cfg x y barWidth startX) phs 0)
      else ([], None))"

text \<open>
  \<^verbatim>\<open>_drawNode(person)\<close>, lines 332-374, after the coordinate index has been written:
  \<open>tid\<close> is the id of the drag target, if there is one. The parts are named so that
  the theorems can speak of them: the shadow, the fill, the outline, the proband arrow
  and the label.
\<close>

definition shadowCmds :: "string option \<Rightarrow> person \<Rightarrow> cmd list" where
  "shadowCmds tid p =
     (if tid = Some (person_id p)
      then [SetShadowColor ''rgba(0, 123, 255, 0.5)'', SetShadowBlur 10] else [])"

definition shapeCmds :: "configuration \<Rightarrow> person \<Rightarrow> real \<Rightarrow> real \<Rightarrow> cmd list" where
  "shapeCmds cfg p x y =
     (if sex p = ''M'' then
        [Rect (x - nodeWidth cfg / 2) (y - nodeHeight cfg / 2) (nodeWidth cfg) (nodeHeight cfg)]
      else if sex p = ''F'' then [Arc x y (nodeWidth cfg / 2) 0 (2 * pi)]
      else [])"

definition outlineCmds :: "configuration \<Rightarrow> person \<Rightarrow> real \<Rightarrow> real \<Rightarrow> cmd list" where
  "outlineCmds cfg p x y =
     [BeginPath, SetStrokeStyle (lineColor cfg), SetLineWidth (lineWidth cfg)]
     @ shapeCmds cfg p x y
     @ [Stroke, SetShadowColor ''transparent'', SetShadowBlur 0]"

definition probandCmds :: "configuration \<Rightarrow> person \<Rightarrow> real \<Rightarrow> real \<Rightarrow> cmd list" where
  "probandCmds cfg p x y =
     (if isProband p then
        (let arrowX = x - nodeWidth cfg / 2 - 5 in
         [BeginPath, MoveTo (arrowX - probandArrowSize cfg) y, LineTo arrowX y,
          MoveTo arrowX y, LineTo (arrowX - 5) (y - 5),
          MoveTo arrowX y, LineTo (arrowX - 5) (y + 5), Stroke])
      else [])"

definition fillCmds :: "configuration \<Rightarrow> person \<Rightarrow> real \<Rightarrow> real \<Rightarrow> drawn" where
  "fillCmds cfg p x y =
     (case phenotypes p of
        None \<Rightarrow> ([], None)
      | Some phs \<Rightarrow> if length phs > 0 then drawPhenotypeFill cfg p phs x y else ([], None))"

definition labelCmds :: "configuration \<Rightarrow> person \<Rightarrow> real \<Rightarrow> real \<Rightarrow> cmd list" where
  "labelCmds cfg p x y = drawText cfg (name p) x (y + nodeHeight cfg / 2 + 5)"

definition drawNode :: "configuration \<Rightarrow> string option \<Rightarrow> person \<Rightarrow> drawn" where
  "drawNode cfg tid p =
     (let c = getPixelCoords cfg (x_coord (pos p)) (y_coord (pos p));
          x = x_coord c; y = y_coord c
      in case fillCmds cfg p x y of
           (fill, Some e) \<Rightarrow> (shadowCmds tid p @ fill, Some e)
         | (fill, None) \<Rightarrow>
             (shadowCmds tid p @ fill @ outlineCmds cfg p x y @ probandCmds cfg p x y
                @ labelCmds cfg p x y, None))"

text \<open>
  \<^verbatim>\<open>this.data.forEach(person => this._drawNode(person))\<close>: each node first writes its
  pixel position into the coordinate index (line 334), then draws; the loop stops at the
  first exception. The index is an object whose keys keep their insertion order; it is
  never emptied, so entries of earlier renders stay in it.
\<close>

fun drawNodes :: "configuration \<Rightarrow> string option \<Rightarrow> (string \<times> point) list \<Rightarrow> person list
    \<Rightarrow> (string \<times> point) list \<times> drawn" where
  "drawNodes cfg tid coords [] = (coords, [], None)"
| "drawNodes cfg tid coords (p # ps) =
     (let coords' = AList.update (person_id p)
                      (getPixelCoords cfg (x_coord (pos p)) (y_coord (pos p))) coords
      in case drawNode cfg tid p of
           (cs, Some e) \<Rightarrow> (coords', cs, Some e)
         | (cs, None) \<Rightarrow>
             (case drawNodes cfg tid coords' ps of
                (coords'', cs', e) \<Rightarrow> (coords'', cs @ cs', e)))"

section \<open>Connection router\<close>

text \<open>
  \<^verbatim>\<open>_drawConnections\<close>, lines 420-494. Every line it draws is one
  \<^verbatim>\<open>beginPath; moveTo; lineTo; stroke\<close>. The router is modelled as producing the list of
  segments, each tagged with what it is drawn for, and \<open>segCmds\<close> as issuing the
  four calls of a segment; the tag leaves no trace on the surface.
\<close>

datatype tag =
    Partnership string string  \<comment> \<open>\<^verbatim>\<open>person.id\<close> and \<^verbatim>\<open>person.mate\<close> of the person drawing it\<close>
  | Drop string                \<comment> \<open>the partnership key\<close>
  | Bus string                 \<comment> \<open>the parent key\<close>
  | ChildDrop string string    \<comment> \<open>the parent key and the child's id\<close>

datatype segment = Segment tag real real real real

fun segTag :: "segment \<Rightarrow> tag" where
  "segTag (Segment t x1 y1 x2 y2) = t"

fun segCmds :: "segment \<Rightarrow> cmd list" where
  "segCmds (Segment t x1 y1 x2 y2) = [BeginPath, MoveTo x1 y1, LineTo x2 y2, Stroke]"

text \<open>The first loop, lines 426-434: \<^verbatim>\<open>person.parents.sort()\<close> sorts a two-element
  \<^verbatim>\<open>parents\<close> array in place (\<open>sortPair\<close>, which \<open>drawConnections\<close> returns as
  the new working copy), and the person's id is appended to the group of the key.\<close>

definition sortPair :: "person \<Rightarrow> person" where
  "sortPair p =
     (case parents p of
        None \<Rightarrow> p
      | Some ids \<Rightarrow> if length ids = 2 then p\<lparr> parents := Some (sort ids) \<rparr> else p)"

definition parentKeyOf :: "person \<Rightarrow> string option" where
  "parentKeyOf p =
     (case parents p of
        None \<Rightarrow> None
      | Some ids \<Rightarrow> if length ids = 2 then Some (join ''-'' (sort ids)) else None)"

definition addChild :: "(string \<times> string list) list \<Rightarrow> person \<Rightarrow> (string \<times> string list) list" where
  "addChild childrenByParents p =
     (case parentKeyOf p of
        None \<Rightarrow> childrenByParents
      | Some parentKey \<Rightarrow>
          (case map_of childrenByParents parentKey of
             None \<Rightarrow> childrenByParents @ [(parentKey, [person_id p])]
           | Some ids \<Rightarrow> AList.update parentKey (ids @ [person_id p]) childrenByParents))"

definition groupChildren :: "person list \<Rightarrow> (string \<times> string list) list" where
  "groupChildren ps = foldl addChild [] ps"

text \<open>The second loop, lines 436-462. The accumulator is \<^verbatim>\<open>drawnPartnerships\<close> and the
  segments drawn so far.\<close>

definition partnershipKey :: "string \<Rightarrow> string \<Rightarrow> string" where
  "partnershipKey a b = join ''-'' (sort [a, b])"

definition partnershipLine :: "configuration \<Rightarrow> string \<Rightarrow> string \<Rightarrow> point \<Rightarrow> point \<Rightarrow> segment" where
  "partnershipLine cfg a m p1 p2 =
     (let leftNode = (if x_coord p1 < x_coord p2 then p1 else p2);
          rightNode = (if x_coord p1 < x_coord p2 then p2 else p1)
      in Segment (Partnership a m)
           (x_coord leftNode + nodeWidth cfg / 2) (y_coord leftNode)
           (x_coord rightNode - nodeWidth cfg / 2) (y_coord rightNode))"

definition dropLine :: "configuration \<Rightarrow> string \<Rightarrow> point \<Rightarrow> point \<Rightarrow> segment" where
  "dropLine cfg key p1 p2 =
     (let midX = (x_coord p1 + x_coord p2) / 2
      in Segment (Drop key) midX (y_coord p1) midX (y_coord p1 + vSpacing cfg / 2))"

definition partnership_step ::
  "configuration \<Rightarrow> (string \<Rightarrow> point option) \<Rightarrow> (string \<times> string list) list
     \<Rightarrow> string list \<times> segment list \<Rightarrow> person \<Rightarrow> string list \<times> segment list" where
  "partnership_step cfg coords childrenByParents acc p =
     (case mate p of
        None \<Rightarrow> acc
      | Some m \<Rightarrow>
          if m = [] then acc
          else
            let key = partnershipKey (person_id p) m in
            if key \<in> set (fst acc) then acc
            else
              (case coords (person_id p) of
                 None \<Rightarrow> acc
               | Some p1 \<Rightarrow>
                   (case coords m of
                      None \<Rightarrow> acc
                    | Some p2 \<Rightarrow>
                        (fst acc @ [key],
                         snd acc
                         @ [partnershipLine cfg (person_id p) m p1 p2]
                         @ (if map_of childrenByParents key \<noteq> None
                            then [dropLine cfg key p1 p2] else [])))))"

definition partnerships ::
  "configuration \<Rightarrow> (string \<Rightarrow> point option) \<Rightarrow> (string \<times> string list) list \<Rightarrow> person list
     \<Rightarrow> segment list" where
  "partnerships cfg coords childrenByParents ps =
     snd (foldl (partnership_step cfg coords childrenByParents) ([], []) ps)"

text \<open>
  The third loop, lines 464-493, one family per key of \<^verbatim>\<open>childrenByParents\<close> in insertion
  order (a key holds a \<^verbatim>\<open>-\<close>, so it is never an array index, which \<^verbatim>\<open>for ... in\<close>
  would move to the front). An index past the end of \<^verbatim>\<open>parentIds\<close> reads
  \<^verbatim>\<open>undefined\<close>, which as a property key is the string \<^verbatim>\<open>undefined\<close>.
  \<^verbatim>\<open>p1.y\<close>, \<^verbatim>\<open>c.x\<close> and \<^verbatim>\<open>p2.x\<close> throw when the coordinate is missing, all before
  the family's first line is drawn. \<^verbatim>\<open>Math.min(parentMidX, Math.min(...xs))\<close> is the
  minimum of \<^verbatim>\<open>parentMidX\<close> and all of \<^verbatim>\<open>xs\<close>, also for no \<^verbatim>\<open>xs\<close> at all
  (\<^verbatim>\<open>Math.min()\<close> is \<^verbatim>\<open>Infinity\<close>); likewise for the maximum.
\<close>

definition at_index :: "string list \<Rightarrow> nat \<Rightarrow> string" where
  "at_index ids i = (if i < length ids then ids ! i else ''undefined'')"

fun lookupAll :: "(string \<Rightarrow> point option) \<Rightarrow> string list \<Rightarrow> point list option" where
  "lookupAll coords [] = Some []"
| "lookupAll coords (i # is) =
     (case coords i of
        None \<Rightarrow> None
      | Some c \<Rightarrow> (case lookupAll coords is of None \<Rightarrow> None | Some cs \<Rightarrow> Some (c # cs)))"

definition family ::
  "configuration \<Rightarrow> (string \<Rightarrow> point option) \<Rightarrow> string \<times> string list \<Rightarrow> error + segment list" where
  "family cfg coords entry =
     (let parentKey = fst entry; childrenIds = snd entry;
          parentIds = split_on CHR ''-'' parentKey
      in case coords (at_index parentIds 0) of
           None \<Rightarrow> Inl TypeError
         | Some p1 \<Rightarrow>
             (case lookupAll coords childrenIds of
                None \<Rightarrow> Inl TypeError
              | Some childCoords \<Rightarrow>
                  (case coords (at_index parentIds 1) of
                     None \<Rightarrow> Inl TypeError
                   | Some p2 \<Rightarrow>
                       let sibshipY = y_coord p1 + vSpacing cfg / 2;
                           xs = map x_coord childCoords;
                           parentMidX = (x_coord p1 + x_coord p2) / 2;
                           sibshipLineStart = foldl min parentMidX xs;
                           sibshipLineEnd = foldl max parentMidX xs
                       in Inr (Segment (Bus parentKey) sibshipLineStart sibshipY
                                 sibshipLineEnd sibshipY
                               # map (\<lambda>(cid, child).
                                   Segment (ChildDrop parentKey cid) (x_coord child) sibshipY
                                     (x_coord child) (y_coord child - nodeHeight cfg / 2))
                                   (zip childrenIds childCoords)))))"

fun families ::
  "configuration \<Rightarrow> (string \<Rightarrow> point option) \<Rightarrow> (string \<times> string list) list
     \<Rightarrow> segment list \<times> error option" where
  "families cfg coords [] = ([], None)"
| "families cfg coords (entry # rest) =
     (case family cfg coords entry of
        Inl e \<Rightarrow> ([], Some e)
      | Inr segs \<Rightarrow> (case families cfg coords rest of (segs', e) \<Rightarrow> (segs @ segs', e)))"

definition routeConnections ::
  "configuration \<Rightarrow> (string \<Rightarrow> point option) \<Rightarrow> person list \<Rightarrow> segment list \<times> error option" where
  "routeConnections cfg coords ps =
     (let childrenByParents = groupChildren ps;
          lines = partnerships cfg coords childrenByParents ps
      in case families cfg coords childrenByParents of
           (segs, e) \<Rightarrow> (lines @ segs, e))"

definition drawConnections ::
  "configuration \<Rightarrow> (string \<Rightarrow> point option) \<Rightarrow> person list \<Rightarrow> person list \<times> drawn" where
  "drawConnections cfg coords ps =
     (case routeConnections cfg coords ps of
        (segs, e) \<Rightarrow>
          (map sortPair ps,
           [SetStrokeStyle (lineColor cfg), SetLineWidth (lineWidth cfg)]
             @ concat (map segCmds segs), e))"

section \<open>Engine state and render\<close>

text \<open>
  The fields of a \<^verbatim>\<open>PedigreeMaker\<close> instance. \<^verbatim>\<open>JSON.parse(JSON.stringify(_))\<close> makes a
  copy that shares nothing with its argument and, on the typed records here, equals it;
  so \<open>data\<close> and \<open>originalData\<close> are separate values, and writing one never writes
  the other. \<^verbatim>\<open>dragTarget\<close> is a reference to a person object: to the element of
  \<open>data\<close> at an index while that array is the working copy, and to an object of its
  own once \<^verbatim>\<open>setData\<close> or \<^verbatim>\<open>resetPositions\<close> has replaced the array. An index past the
  end of \<open>data\<close> refers to nothing and counts as no target; no operation produces one.
  The optional \<^verbatim>\<open>onNodeMoved\<close> hook and the touch handlers, which forward to the mouse
  handlers, are left out.
\<close>

record canvas_element =
  canvas_width :: real
  canvas_height :: real

datatype target = InData nat | Detached person

record state =
  canvas :: canvas_element
  data :: "person list"
  originalData :: "person list"
  config :: configuration
  nodeCoords :: "(string \<times> point) list"
  isDragging :: bool
  dragTarget :: "target option"
  dragOffset :: point
  lastMousePos :: point
  cursor :: string

type_synonym outcome = "state \<times> cmd list \<times> error option"





definition targetPerson :: "state \<Rightarrow> person option" where
  "targetPerson s =
     (case dragTarget s of
        None \<Rightarrow> None
      | Some (Detached p) \<Rightarrow> Some p
      | Some (InData i) \<Rightarrow> if i < length (data s) then Some (data s ! i) else None)"

text \<open>\<^verbatim>\<open>render()\<close>, lines 496-501. The state returned with an error is the state at the
  throw.\<close>

definition render :: "state \<Rightarrow> outcome" where
  "render s =
     (let ps = optimizeLayout (config s) (data s);
          s1 = s\<lparr> data := ps \<rparr>;
          clear = [ClearRect 0 0 (canvas_width (canvas s)) (canvas_height (canvas s))]
      in case drawNodes (config s) (map_option person_id (targetPerson s1)) (nodeCoords s) ps of
           (coords, cs, Some e) \<Rightarrow> (s1\<lparr> nodeCoords := coords \<rparr>, clear @ cs, Some e)
         | (coords, cs, None) \<Rightarrow>
             (case drawConnections (config s) (map_of coords) ps of
                (ps', cs', e) \<Rightarrow>
                  (s1\<lparr> nodeCoords := coords, data := ps' \<rparr>, clear @ cs @ cs', e)))"

section \<open>Interaction controller\<close>

record event =
  clientX :: real
  clientY :: real
  rect_left :: real
  rect_top :: real

text \<open>\<^verbatim>\<open>_getMousePosition(event)\<close>, lines 98-104; the event carries the bounding rectangle
  the canvas had when it was delivered.\<close>

definition getMousePosition :: "event \<Rightarrow> point" where
  "getMousePosition ev =
     \<lparr> x_coord = clientX ev - rect_left ev, y_coord = clientY ev - rect_top ev \<rparr>"

text \<open>
  The order in which \<^verbatim>\<open>for (const personId in this.nodeCoords)\<close> visits the keys: keys
  that are array indices (canonical decimal numerals below \<open>2^32 - 1\<close>) in ascending
  numeric order, then the other keys in insertion order.
\<close>

definition is_digit :: "char \<Rightarrow> bool" where
  "is_digit c = (CHR ''0'' \<le> c \<and> c \<le> CHR ''9'')"

definition decimal :: "string \<Rightarrow> nat" where
  "decimal s = foldl (\<lambda>n c. 10 * n + (of_char c - 48)) 0 s"

definition is_array_index :: "string \<Rightarrow> bool" where
  "is_array_index s =
     (s \<noteq> [] \<and> list_all is_digit s \<and> (s = ''0'' \<or> hd s \<noteq> CHR ''0'')
      \<and> decimal s < 2 ^ 32 - 1)"

definition forin_order :: "(string \<times> 'a) list \<Rightarrow> (string \<times> 'a) list" where
  "forin_order al =
     sort_key (\<lambda>kv. decimal (fst kv)) (filter (\<lambda>kv. is_array_index (fst kv)) al)
     @ filter (\<lambda>kv. \<not> is_array_index (fst kv)) al"

fun firstIndex :: "('a \<Rightarrow> bool) \<Rightarrow> 'a list \<Rightarrow> nat option" where
  "firstIndex P [] = None"
| "firstIndex P (a # as) = (if P a then Some 0 else map_option Suc (firstIndex P as))"

text \<open>\<^verbatim>\<open>_findNodeAtPosition(x, y)\<close>, lines 122-147: the result is the index in \<open>data\<close> of
  the person found. An id of the index with no person in \<open>data\<close> makes
  \<^verbatim>\<open>person.sex\<close> throw.\<close>

fun findNode :: "configuration \<Rightarrow> person list \<Rightarrow> real \<Rightarrow> real \<Rightarrow> (string \<times> point) list
    \<Rightarrow> error + nat option" where
  "findNode cfg ps x y [] = Inr None"
| "findNode cfg ps x y ((personId, coord) # rest) =
     (let dx = x - x_coord coord; dy = y - y_coord coord in
      case firstIndex (\<lambda>p. person_id p = personId) ps of
        None \<Rightarrow> Inl TypeError
      | Some k \<Rightarrow>
          let isInside =
                (if sex (ps ! k) = ''F'' then sqrt (dx * dx + dy * dy) \<le> nodeWidth cfg / 2
                 else \<bar>dx\<bar> \<le> nodeWidth cfg / 2 \<and> \<bar>dy\<bar> \<le> nodeHeight cfg / 2)
          in if isInside then Inr (Some k) else findNode cfg ps x y rest)"

definition findNodeAtPosition :: "state \<Rightarrow> real \<Rightarrow> real \<Rightarrow> error + nat option" where
  "findNodeAtPosition s x y = findNode (config s) (data s) x y (forin_order (nodeCoords s))"

text \<open>\<^verbatim>\<open>_handleMouseDown(event)\<close>, lines 153-170.\<close>

definition handleMouseDown :: "event \<Rightarrow> state \<Rightarrow> outcome" where
  "handleMouseDown ev s =
     (let mousePos = getMousePosition ev in
      case findNodeAtPosition s (x_coord mousePos) (y_coord mousePos) of
        Inl e \<Rightarrow> (s, [], Some e)
      | Inr None \<Rightarrow> (s, [], None)
      | Inr (Some k) \<Rightarrow>
          let s1 = s\<lparr> isDragging := True, dragTarget := Some (InData k) \<rparr> in
          (case map_of (nodeCoords s) (person_id (data s ! k)) of
             None \<Rightarrow> (s1, [], Some TypeError)
           | Some nodeCoord \<Rightarrow>
               (s1\<lparr> dragOffset := \<lparr> x_coord = x_coord mousePos - x_coord nodeCoord,
                                     y_coord = y_coord mousePos - y_coord nodeCoord \<rparr>,
                    cursor := ''grabbing'' \<rparr>, [], None)))"

text \<open>
  \<^verbatim>\<open>_handleMouseMove(event)\<close>, lines 176-200. \<open>dragTo\<close> is the state after the two
  assignments to \<^verbatim>\<open>this.dragTarget.pos\<close> (lines 190-191) and before the render.
  With a spacing of zero the source goes on with a coordinate that is \<^verbatim>\<open>NaN\<close> or
  infinite; the model does not follow it there and leaves the position as it is.
\<close>

definition setTargetPos :: "point \<Rightarrow> state \<Rightarrow> state" where
  "setTargetPos g s =
     (case dragTarget s of
        Some (InData i) \<Rightarrow> s\<lparr> data := (data s)[i := (data s ! i)\<lparr> pos := g \<rparr>] \<rparr>
      | Some (Detached p) \<Rightarrow> s\<lparr> dragTarget := Some (Detached (p\<lparr> pos := g \<rparr>)) \<rparr>
      | None \<Rightarrow> s)"

definition dragTo :: "event \<Rightarrow> state \<Rightarrow> state" where
  "dragTo ev s =
     (let mousePos = getMousePosition ev;
          s1 = s\<lparr> lastMousePos := mousePos \<rparr>;
          newPixelX = x_coord mousePos - x_coord (dragOffset s);
          newPixelY = y_coord mousePos - y_coord (dragOffset s)
      in case pixelToGrid (config s) newPixelX newPixelY of
           None \<Rightarrow> s1
         | Some g \<Rightarrow> setTargetPos g s1)"

definition handleMouseMove :: "event \<Rightarrow> state \<Rightarrow> outcome" where
  "handleMouseMove ev s =
     (if isDragging s \<and> targetPerson s \<noteq> None then render (dragTo ev s)
      else
        let mousePos = getMousePosition ev; s1 = s\<lparr> lastMousePos := mousePos \<rparr> in
        case findNodeAtPosition s1 (x_coord mousePos) (y_coord mousePos) of
          Inl e \<Rightarrow> (s1, [], Some e)
        | Inr hoveredNode \<Rightarrow>
            (s1\<lparr> cursor := (if hoveredNode \<noteq> None then ''grab'' else ''default'') \<rparr>, [], None))"

text \<open>\<^verbatim>\<open>_handleMouseUp(event)\<close>, lines 206-217.\<close>

definition handleMouseUp :: "state \<Rightarrow> outcome" where
  "handleMouseUp s =
     (if isDragging s
      then (s\<lparr> isDragging := False, dragTarget := None, cursor := ''default'' \<rparr>, [], None)
      else (s, [], None))"

text \<open>\<^verbatim>\<open>resetPositions\<close>, \<^verbatim>\<open>toggleAutoLayoutOptimize\<close>, \<^verbatim>\<open>getData\<close> and \<^verbatim>\<open>setData\<close>,
  lines 258-295. Replacing \<^verbatim>\<open>this.data\<close> leaves a drag target pointing at the object
  of the old array.\<close>

definition detach :: "state \<Rightarrow> target option" where
  "detach s = map_option Detached (targetPerson s)"

definition resetPositions :: "state \<Rightarrow> outcome" where
  "resetPositions s = render (s\<lparr> data := originalData s, dragTarget := detach s \<rparr>)"

definition toggleAutoLayoutOptimize :: "state \<Rightarrow> outcome" where
  "toggleAutoLayoutOptimize s =
     render (s\<lparr> config := (config s)\<lparr> autoLayoutOptimize := \<not> autoLayoutOptimize (config s) \<rparr> \<rparr>)"

definition getData :: "state \<Rightarrow> person list" where
  "getData s = data s"

definition setData :: "person list \<Rightarrow> state \<Rightarrow> outcome" where
  "setData newData s = render (s\<lparr> data := newData, dragTarget := detach s \<rparr>)"

text \<open>
  What the host can do with an instance. The listeners are registered only when
  \<^verbatim>\<open>interactive\<close> is set (line 66). After an exception the instance stays as the throw
  left it and the next call finds it so.
\<close>

datatype op =
    Render | SetData "person list" | ResetPositions | ToggleAutoLayoutOptimize
  | MouseDown event | MouseMove event | MouseUp

fun apply_op :: "state \<Rightarrow> op \<Rightarrow> outcome" where
  "apply_op s Render = render s"
| "apply_op s (SetData newData) = setData newData s"
| "apply_op s ResetPositions = resetPositions s"
| "apply_op s ToggleAutoLayoutOptimize = toggleAutoLayoutOptimize s"
| "apply_op s (MouseDown ev) =
     (if interactive (config s) then handleMouseDown ev s else (s, [], None))"
| "apply_op s (MouseMove ev) =
     (if interactive (config s) then handleMouseMove ev s else (s, [], None))"
| "apply_op s MouseUp =
     (if interactive (config s) then handleMouseUp s else (s, [], None))"

definition run :: "state \<Rightarrow> op list \<Rightarrow> state" where
  "run s ops = foldl (\<lambda>s' o'. fst (apply_op s' o')) s ops"

section \<open>Notions used by the theorems\<close>

text \<open>What \<open>optimizeLayout\<close> may change of a person: the x-coordinate, and the order of
  the ids in \<^verbatim>\<open>parents\<close>, which the in-place sort may have put in ascending order.\<close>

definition frame_rel :: "person \<Rightarrow> person \<Rightarrow> bool" where
  "frame_rel p p' =
     (person_id p' = person_id p \<and> name p' = name p \<and> sex p' = sex p
      \<and> y_coord (pos p') = y_coord (pos p) \<and> mate p' = mate p
      \<and> (parents p' = parents p \<or> parents p' = map_option sort (parents p))
      \<and> phenotypes p' = phenotypes p \<and> isProband p' = isProband p)"

definition xs_of :: "person list \<Rightarrow> real list" where
  "xs_of ps = map (\<lambda>p. x_coord (pos p)) ps"

text \<open>Example data: a person with only the required fields, as in
  \<^verbatim>\<open>{ id: 'kevin', name: 'kevin', sex: 'M', pos: { x: 1, y: 0 } }\<close>.\<close>

definition plain :: "string \<Rightarrow> string \<Rightarrow> real \<Rightarrow> real \<Rightarrow> person" where
  "plain i sx gx gy =
     \<lparr> person_id = i, name = i, sex = sx, pos = \<lparr> x_coord = gx, y_coord = gy \<rparr>,
       mate = None, parents = None, phenotypes = None, isProband = False \<rparr>"


text \<open>The pie wedge of the phenotype at position \<open>i\<close> of \<open>k\<close>, filled with \<open>colour\<close>:
  the six context calls of lines 388-393 with the angles written out.\<close>

definition wedgeCmds :: "real \<Rightarrow> real \<Rightarrow> real \<Rightarrow> nat \<Rightarrow> string \<Rightarrow> nat \<Rightarrow> cmd list" where
  "wedgeCmds x y radius k colour i =
     [SetFillStyle colour, BeginPath, MoveTo x y,
      Arc x y radius (real i * (2 * pi / real k)) (real (i + 1) * (2 * pi / real k)),
      ClosePath, Fill]"

text \<open>Example data: a woman with two phenotypes, and a person whose \<^verbatim>\<open>sex\<close> is neither
  \<^verbatim>\<open>'M'\<close> nor \<^verbatim>\<open>'F'\<close> with one.\<close>

definition two_traits :: person where
  "two_traits = (plain ''A'' ''F'' 0 0)\<lparr> phenotypes := Some [''poi'', ''bc''] \<rparr>"

definition unknown_sex :: person where
  "unknown_sex = (plain ''U'' ''X'' 0 0)\<lparr> phenotypes := Some [''poi''] \<rparr>"

text \<open>\<open>references a m p\<close>: the person \<open>p\<close> has id \<open>a\<close> and names \<open>m\<close> as its mate.
  \<open>links a b p\<close>: \<open>p\<close> is one of the pair \<open>{a, b}\<close> and names the other as its mate.
  \<open>isLineOf a b s\<close>: the segment \<open>s\<close> is a partnership line drawn for the pair.\<close>

definition references :: "string \<Rightarrow> string \<Rightarrow> person \<Rightarrow> bool" where
  "references a m p = (person_id p = a \<and> mate p = Some m \<and> m \<noteq> [])"

definition links :: "string \<Rightarrow> string \<Rightarrow> person \<Rightarrow> bool" where
  "links a b p = (references a b p \<or> references b a p)"

definition isLineOf :: "string \<Rightarrow> string \<Rightarrow> segment \<Rightarrow> bool" where
  "isLineOf a b s = (segTag s = Partnership a b \<or> segTag s = Partnership b a)"

text \<open>\<open>sameKeyOnly a b ps\<close>: within \<open>ps\<close>, only mate references between \<open>a\<close> and
  \<open>b\<close> produce the partnership key of \<open>a\<close> and \<open>b\<close>.\<close>

definition sameKeyOnly :: "string \<Rightarrow> string \<Rightarrow> person list \<Rightarrow> bool" where
  "sameKeyOnly a b ps =
     (\<forall>p \<in> set ps. \<forall>m. mate p = Some m \<and> m \<noteq> []
          \<and> partnershipKey (person_id p) m = partnershipKey a b \<longrightarrow> links a b p)"

text \<open>Example data: two couples whose ids give one and the same partnership key
  \<^verbatim>\<open>a-b-c\<close>.\<close>

definition colliding_couples :: "person list" where
  "colliding_couples =
     [(plain ''a-b'' ''F'' 0 0)\<lparr> mate := Some ''c'' \<rparr>, plain ''c'' ''M'' 1 0,
      (plain ''a'' ''F'' 2 0)\<lparr> mate := Some ''b-c'' \<rparr>, plain ''b-c'' ''M'' 3 0]"

text \<open>Example data: a couple standing on different rows.\<close>

definition slanted_couple :: "person list" where
  "slanted_couple =
     [(plain ''kevin'' ''M'' 1 0)\<lparr> mate := Some ''elsa'' \<rparr>, plain ''elsa'' ''F'' 2 1]"

definition canvas800 :: canvas_element where
  "canvas800 = \<lparr> canvas_width = 800, canvas_height = 500 \<rparr>"


text \<open>The instance that \<^verbatim>\<open>new PedigreeMaker(id, ps)\<close> makes on an 800 by 500 canvas.\<close>

definition fresh :: "person list \<Rightarrow> state" where
  "fresh ps =
     \<lparr> canvas = canvas800, data = ps, originalData = ps, config = defaults, nodeCoords = [],
       isDragging = False, dragTarget = None, dragOffset = \<lparr> x_coord = 0, y_coord = 0 \<rparr>,
       lastMousePos = \<lparr> x_coord = 0, y_coord = 0 \<rparr>, cursor = ''default'' \<rparr>"

text \<open>Example data: a couple who name each other as mates; a child whose parents are not
  in the dataset; and two parents with a child but no mate reference between them.\<close>

definition couple :: "person list" where
  "couple =
     [(plain ''kevin'' ''M'' 1 0)\<lparr> mate := Some ''elsa'' \<rparr>,
      (plain ''elsa'' ''F'' 2 0)\<lparr> mate := Some ''kevin'' \<rparr>]"

definition couple_coords :: "(string \<times> point) list" where
  "couple_coords =
     [(''kevin'', \<lparr> x_coord = 150, y_coord = 50 \<rparr>), (''elsa'', \<lparr> x_coord = 250, y_coord = 50 \<rparr>)]"

definition orphan :: "person list" where
  "orphan = [(plain ''kid'' ''M'' 0 1)\<lparr> parents := Some [''mo'', ''fa''] \<rparr>]"

text \<open>A family written with the generation-number ids of pedigree charts, all three
  persons in the dataset.\<close>

definition numbered_family :: "person list" where
  "numbered_family =
     [plain ''I-1'' ''M'' 0 0, (plain ''I-2'' ''F'' 1 0)\<lparr> mate := Some ''I-1'' \<rparr>,
      (plain ''II-1'' ''M'' (1/2) 1)\<lparr> parents := Some [''I-1'', ''I-2''] \<rparr>]"

definition unlinked_family :: "person list" where
  "unlinked_family =
     [plain ''A'' ''M'' 0 0, plain ''B'' ''F'' 1 0,
      (plain ''C'' ''F'' (1/2) 1)\<lparr> parents := Some [''A'', ''B''] \<rparr>]"

definition linked_family :: "person list" where
  "linked_family =
     [plain ''A'' ''M'' 0 0, (plain ''B'' ''F'' 1 0)\<lparr> mate := Some ''A'' \<rparr>,
      (plain ''C'' ''F'' (1/2) 1)\<lparr> parents := Some [''A'', ''B''] \<rparr>]"

text \<open>Every segment of the partnership loop is a partnership line between two resolved
  coordinates, or the drop line that follows such a line when the key has children.\<close>

definition lineOK :: "configuration \<Rightarrow> (string \<Rightarrow> point option) \<Rightarrow> segment \<Rightarrow> bool" where
  "lineOK cfg coords s =
     (\<forall>c d. segTag s = Partnership c d \<longrightarrow>
        (\<exists>p1 p2. coords c = Some p1 \<and> coords d = Some p2 \<and> s = partnershipLine cfg c d p1 p2))"


text \<open>Example data: a couple \<open>fa\<close>, \<open>mo\<close> and their children \<open>P\<close>, \<open>R\<close>, \<open>S\<close> on
  the next row; \<open>P\<close> stands right of its mate \<open>Q\<close>, and \<open>R\<close> and \<open>S\<close> stand between
  the two.\<close>

definition two_between :: "person list" where
  "two_between =
     [plain ''fa'' ''M'' 0 0, (plain ''mo'' ''F'' 1 0)\<lparr> mate := Some ''fa'' \<rparr>,
      (plain ''P'' ''F'' 3 1)\<lparr> mate := Some ''Q'', parents := Some [''fa'', ''mo''] \<rparr>,
      plain ''Q'' ''M'' 0 1,
      (plain ''R'' ''M'' 1 1)\<lparr> parents := Some [''fa'', ''mo''] \<rparr>,
      (plain ''S'' ''F'' 2 1)\<lparr> parents := Some [''fa'', ''mo''] \<rparr>]"

text \<open>Two persons that no drawing routine tells apart: equal but for the order of the ids
  in \<^verbatim>\<open>parents\<close>. \<open>pixels\<close> lists what a pass over the nodes writes into the
  coordinate index.\<close>

definition same_drawing :: "person \<Rightarrow> person \<Rightarrow> bool" where
  "same_drawing p p' =
     (person_id p' = person_id p \<and> name p' = name p \<and> sex p' = sex p \<and> pos p' = pos p
      \<and> mate p' = mate p \<and> map_option sort (parents p') = map_option sort (parents p)
      \<and> phenotypes p' = phenotypes p \<and> isProband p' = isProband p)"

definition pixels :: "configuration \<Rightarrow> person list \<Rightarrow> (string \<times> point) list" where
  "pixels cfg ps =
     map (\<lambda>p. (person_id p, getPixelCoords cfg (x_coord (pos p)) (y_coord (pos p)))) ps"

definition writeAll :: "(string \<rightharpoonup> point) \<Rightarrow> (string \<times> point) list \<Rightarrow> (string \<rightharpoonup> point)" where
  "writeAll m kvs = foldl (\<lambda>m' kv. m'(fst kv \<mapsto> snd kv)) m kvs"

text \<open>\<open>nonneg ps\<close>: both grid coordinates of every person of \<open>ps\<close> are non-negative.\<close>

definition nonneg :: "person list \<Rightarrow> bool" where
  "nonneg ps = (\<forall>p \<in> set ps. 0 \<le> x_coord (pos p) \<and> 0 \<le> y_coord (pos p))"

text \<open>Example data: a row whose first person was given a negative x in the dataset, and
  pointer events at canvas positions \<open>(250, 50)\<close>, the centre of the second node, and
  \<open>(310, 50)\<close>, on a canvas whose bounding rectangle starts at the origin.\<close>

definition left_of_origin :: "person list" where
  "left_of_origin = [plain ''A'' ''M'' (-1) 0, plain ''B'' ''M'' 2 0]"

definition pointer :: "real \<Rightarrow> real \<Rightarrow> event" where
  "pointer px py = \<lparr> clientX = px, clientY = py, rect_left = 0, rect_top = 0 \<rparr>"

section \<open>Grid and pixel transforms\<close>




section \<open>Layout optimizer\<close>

lemma frame_rel_refl: "frame_rel p p"
  by (simp add: frame_rel_def)

lemma sort_parents_idem:
  "map_option sort (map_option sort q) = map_option (sort :: string list \<Rightarrow> _) q"
  by (cases q) (simp_all add: sorted_sort_id)

lemma frame_rel_trans: "frame_rel p q \<Longrightarrow> frame_rel q r \<Longrightarrow> frame_rel p r"
  unfolding frame_rel_def by (auto simp: sort_parents_idem)

lemma frame_rel_setX_sort: "frame_rel p (setX v (sortParents p))"
  by (simp add: frame_rel_def setX_def sortParents_def)

lemma frame_rel_sort: "frame_rel p (sortParents p)"
  by (simp add: frame_rel_def sortParents_def)

lemma frame_rel_list_refl: "list_all2 frame_rel ps ps"
  by (simp add: list_all2_refl frame_rel_refl)

lemma frame_rel_list_trans:
  "list_all2 frame_rel ps qs \<Longrightarrow> list_all2 frame_rel qs rs \<Longrightarrow> list_all2 frame_rel ps rs"
  using list_all2_trans[of frame_rel frame_rel frame_rel] frame_rel_trans by blast

lemma obstacle_step_length [simp]: "length (obstacle_step i q lo hi ps j) = length ps"
  by (simp add: obstacle_step_def Let_def)

lemma list_all2_update2:
  assumes "R (ps ! i) a" "R (ps ! j) b" "\<And>p. R p p"
  shows "list_all2 R ps (ps[i := a, j := b])"
proof -
  have "list_all2 R (ps[i := ps ! i, j := ps ! j]) (ps[i := a, j := b])"
    by (intro list_all2_update_cong) (simp_all add: list_all2_refl assms)
  then show ?thesis by simp
qed

lemma obstacle_step_frame: "list_all2 frame_rel ps (obstacle_step i q lo hi ps j)"
  unfolding obstacle_step_def Let_def
  by (auto intro!: list_all2_update2 frame_rel_setX_sort frame_rel_sort frame_rel_refl
        simp: frame_rel_list_refl)

lemma xs_of_update: "xs_of (ps[i := a]) = (xs_of ps)[i := x_coord (pos a)]"
  by (simp add: xs_of_def map_update)

lemma x_setX [simp]: "x_coord (pos (setX v p)) = v"
  by (simp add: setX_def)

lemma x_sortParents [simp]: "x_coord (pos (sortParents p)) = x_coord (pos p)"
  by (simp add: sortParents_def)

lemma obstacle_step_mset:
  assumes "i < length ps" "j < length ps"
  shows "mset (xs_of (obstacle_step i q lo hi ps j)) = mset (xs_of ps)"
proof -
  let ?xs = "xs_of ps"
  have n: "x_coord (pos (ps ! i)) = ?xs ! i" "x_coord (pos (ps ! j)) = ?xs ! j"
    using assms by (simp_all add: xs_of_def)
  have len: "i < length ?xs" "j < length ?xs"
    using assms by (simp_all add: xs_of_def)
  have sw: "mset (?xs[i := ?xs ! j, j := ?xs ! i]) = mset ?xs"
    using len by (simp add: mset_swap)
  have same: "?xs[i := ?xs ! i, j := ?xs ! j] = ?xs"
    by simp
  show ?thesis
    unfolding obstacle_step_def Let_def
    by (simp add: xs_of_update n sw same del: list_update_id)
qed

lemma foldl_obstacle_inv:
  assumes "\<forall>j \<in> set js. j < length ps" "i < length ps"
  shows "length (foldl (obstacle_step i q lo hi) ps js) = length ps
       \<and> list_all2 frame_rel ps (foldl (obstacle_step i q lo hi) ps js)
       \<and> mset (xs_of (foldl (obstacle_step i q lo hi) ps js)) = mset (xs_of ps)"
  using assms
proof (induction js arbitrary: ps)
  case Nil
  then show ?case by (simp add: frame_rel_list_refl)
next
  case (Cons j js)
  let ?ps1 = "obstacle_step i q lo hi ps j"
  have IH: "length (foldl (obstacle_step i q lo hi) ?ps1 js) = length ?ps1
       \<and> list_all2 frame_rel ?ps1 (foldl (obstacle_step i q lo hi) ?ps1 js)
       \<and> mset (xs_of (foldl (obstacle_step i q lo hi) ?ps1 js)) = mset (xs_of ?ps1)"
    using Cons.prems by (intro Cons.IH) simp_all
  have "list_all2 frame_rel ps (foldl (obstacle_step i q lo hi) ?ps1 js)"
    using frame_rel_list_trans[OF obstacle_step_frame] IH by blast
  then show ?case using IH Cons.prems by (simp add: obstacle_step_mset)
qed

lemma person_step_inv:
  assumes "i < length ps"
  shows "length (person_step ps i) = length ps
       \<and> list_all2 frame_rel ps (person_step ps i)
       \<and> mset (xs_of (person_step ps i)) = mset (xs_of ps)"
  using assms foldl_obstacle_inv[of "[0..<length ps]" ps i]
  by (simp add: person_step_def Let_def frame_rel_list_refl split: option.splits)

lemma foldl_person_inv:
  assumes "\<forall>i \<in> set is. i < length ps"
  shows "length (foldl person_step ps is) = length ps
       \<and> list_all2 frame_rel ps (foldl person_step ps is)
       \<and> mset (xs_of (foldl person_step ps is)) = mset (xs_of ps)"
  using assms
proof (induction "is" arbitrary: ps)
  case Nil
  then show ?case by (simp add: frame_rel_list_refl)
next
  case (Cons i "is")
  let ?ps1 = "person_step ps i"
  have s: "length ?ps1 = length ps" "list_all2 frame_rel ps ?ps1"
      "mset (xs_of ?ps1) = mset (xs_of ps)"
    using person_step_inv[of i ps] Cons.prems by simp_all
  have IH: "length (foldl person_step ?ps1 is) = length ?ps1
       \<and> list_all2 frame_rel ?ps1 (foldl person_step ?ps1 is)
       \<and> mset (xs_of (foldl person_step ?ps1 is)) = mset (xs_of ?ps1)"
    using Cons.prems s by (intro Cons.IH) simp
  have "list_all2 frame_rel ps (foldl person_step ?ps1 is)"
    using frame_rel_list_trans[OF s(2)] IH by blast
  then show ?case using IH s by simp
qed

lemma optimizeLayout_inv:
  "length (optimizeLayout cfg ps) = length ps
     \<and> list_all2 frame_rel ps (optimizeLayout cfg ps)
     \<and> mset (xs_of (optimizeLayout cfg ps)) = mset (xs_of ps)"
  using foldl_person_inv[of "[0..<length ps]" ps]
  by (simp add: optimizeLayout_def frame_rel_list_refl)






section \<open>Node drawing\<close>

lemma forEachPheno_all:
  assumes "\<forall>i < length phs. f (phs ! i) (n + i) = Inr (g (n + i))"
  shows "forEachPheno f phs n = (concat (map g [n..<n + length phs]), None)"
  using assms
proof (induction phs arbitrary: n)
  case Nil
  then show ?case by simp
next
  case (Cons ph phs)
  have first: "f ph n = Inr (g n)"
    using Cons.prems[rule_format, of 0] by simp
  have rest: "\<forall>i < length phs. f (phs ! i) (Suc n + i) = Inr (g (Suc n + i))"
    using Cons.prems[rule_format, of "Suc i" for i] by simp
  have "forEachPheno f phs (Suc n) = (concat (map g [Suc n..<Suc n + length phs]), None)"
    by (rule Cons.IH[OF rest])
  moreover have "[n..<Suc (n + length phs)] = n # [Suc n..<Suc (n + length phs)]"
    by (rule upt_conv_Cons) simp
  ultimately show ?case using first by (simp del: upt_Suc)
qed

lemma wedge_coloured:
  assumes "styleOf cfg ph = Some st" "facecolor st = Some c" "c \<noteq> []"
  shows "wedge cfg x y r (2 * pi / real k) ph i = Inr (wedgeCmds x y r k c i)"
  using assms by (simp add: wedge_def wedgeCmds_def algebra_simps)

text \<open>
  What the code does for claim C4. For a person whose \<^verbatim>\<open>sex\<close> is \<^verbatim>\<open>'F'\<close> with
  \<open>k \<ge> 1\<close> phenotypes, each resolving to a style with a fill colour, the fill is
  \<open>k\<close> wedges in phenotype list order; wedge \<open>i\<close> (counted from 0) is the arc of
  radius half the node width from angle \<open>i \<cdot> 2\<pi>/k\<close> to angle \<open>(i + 1) \<cdot> 2\<pi>/k\<close>, so
  every wedge spans one \<open>k\<close>-th of the full turn, and the first wedge starts at the
  angle 0 of the angular reference, with no rotation.
\<close>

lemma pie_wedges:
  assumes "sex p = ''F''" and "phs \<noteq> []" and "length cs = length phs"
    and "\<forall>i < length phs. \<exists>st. styleOf cfg (phs ! i) = Some st
            \<and> facecolor st = Some (cs ! i) \<and> cs ! i \<noteq> []"
  shows "drawPhenotypeFill cfg p phs x y
           = (concat (map (\<lambda>i. wedgeCmds x y (nodeWidth cfg / 2) (length phs) (cs ! i) i)
                [0..<length phs]), None)"
proof -
  have "\<forall>i < length phs.
          wedge cfg x y (nodeWidth cfg / 2) (2 * pi / real (length phs)) (phs ! i) (0 + i)
          = Inr (wedgeCmds x y (nodeWidth cfg / 2) (length phs) (cs ! (0 + i)) (0 + i))"
    using assms(4) wedge_coloured by fastforce
  from forEachPheno_all
         [where g = "\<lambda>i. wedgeCmds x y (nodeWidth cfg / 2) (length phs) (cs ! i) i", OF this]
  show ?thesis using assms(1,2) by (simp add: drawPhenotypeFill_def Let_def)
qed

lemma pie_wedges_example:
  "sex two_traits = ''F'' \<and> [''poi'', ''bc''] \<noteq> []
   \<and> length [''#a9a9a9'', ''#a9a9a9''] = length [''poi'', ''bc'']
   \<and> drawPhenotypeFill defaults two_traits [''poi'', ''bc''] 50 50
       = (wedgeCmds 50 50 25 2 ''#a9a9a9'' 0 @ wedgeCmds 50 50 25 2 ''#a9a9a9'' 1, None)"
proof -
  have s: "sex two_traits = ''F''"
    by (simp add: two_traits_def plain_def)
  have st: "\<forall>i < length [''poi'', ''bc''].
              \<exists>st. styleOf defaults ([''poi'', ''bc''] ! i) = Some st
                \<and> facecolor st = Some ([''#a9a9a9'', ''#a9a9a9''] ! i)
                \<and> [''#a9a9a9'', ''#a9a9a9''] ! i \<noteq> []"
    by (auto simp: styleOf_def defaults_def less_Suc_eq numeral_2_eq_2)
  have nw: "nodeWidth defaults / 2 = 25"
    by (simp add: defaults_def)
  from pie_wedges [OF s _ _ st, of 50 50] show ?thesis
    using s by (simp add: nw numeral_2_eq_2)
qed

text \<open>
  Claim C4: where the first wedge starts. For \<open>two_traits\<close>, a woman with two
  phenotypes, the two wedges drawn are the arcs from 0 to \<open>\<pi>\<close> and from \<open>\<pi>\<close> to
  \<open>2\<pi>\<close>, on the canvas the lower and the upper half of the circle; the wedge that a
  start at the top would give, from \<open>-\<pi>/2\<close> to \<open>\<pi>/2\<close>, is not drawn.
\<close>

theorem pie_wedges_start_at_zero:
  "drawPhenotypeFill defaults two_traits [''poi'', ''bc''] 50 50
     = ([SetFillStyle ''#a9a9a9'', BeginPath, MoveTo 50 50, Arc 50 50 25 0 pi, ClosePath, Fill,
         SetFillStyle ''#a9a9a9'', BeginPath, MoveTo 50 50, Arc 50 50 25 pi (2 * pi),
         ClosePath, Fill], None)
   \<and> Arc 50 50 25 (- (pi / 2)) (pi / 2)
       \<notin> set (fst (drawPhenotypeFill defaults two_traits [''poi'', ''bc''] 50 50))"
proof -
  have eq: "drawPhenotypeFill defaults two_traits [''poi'', ''bc''] 50 50
     = ([SetFillStyle ''#a9a9a9'', BeginPath, MoveTo 50 50, Arc 50 50 25 0 pi, ClosePath, Fill,
         SetFillStyle ''#a9a9a9'', BeginPath, MoveTo 50 50, Arc 50 50 25 pi (2 * pi),
         ClosePath, Fill], None)"
    by (simp add: drawPhenotypeFill_def two_traits_def plain_def defaults_def wedge_def
        styleOf_def Let_def)
  have "pi / 2 \<noteq> pi" "- (pi / 2) \<noteq> (0 :: real)"
    using pi_gt_zero by simp_all
  then show ?thesis unfolding eq by simp
qed

lemma fillCmds_unrecognized:
  assumes "sex p \<noteq> ''M''" "sex p \<noteq> ''F''"
  shows "fillCmds cfg p x y = ([], None)"
  using assms by (simp add: fillCmds_def drawPhenotypeFill_def Let_def split: option.splits)

text \<open>
  Claim C8, as amended. For every person whose \<^verbatim>\<open>sex\<close> is neither \<^verbatim>\<open>'M'\<close> nor
  \<^verbatim>\<open>'F'\<close>, drawing the node never fails and omits both the shape of the outline and
  the phenotype fill, whatever the person's phenotypes and their styles: what is drawn
  is the drag shadow if the person is the drag target, an empty stroked path, the proband
  arrow if flagged and the multi-line label, and the label is the one the person would
  get with any other \<^verbatim>\<open>sex\<close>.
\<close>

theorem unrecognized_sex_node:
  assumes "sex p \<noteq> ''M''" and "sex p \<noteq> ''F''"
  shows "drawNode cfg tid p
           = (shadowCmds tid p
              @ [BeginPath, SetStrokeStyle (lineColor cfg), SetLineWidth (lineWidth cfg),
                 Stroke, SetShadowColor ''transparent'', SetShadowBlur 0]
              @ probandCmds cfg p (x_coord (getPixelCoords cfg (x_coord (pos p)) (y_coord (pos p))))
                  (y_coord (getPixelCoords cfg (x_coord (pos p)) (y_coord (pos p))))
              @ labelCmds cfg p (x_coord (getPixelCoords cfg (x_coord (pos p)) (y_coord (pos p))))
                  (y_coord (getPixelCoords cfg (x_coord (pos p)) (y_coord (pos p)))), None)
         \<and> fillCmds cfg p x y = ([], None)
         \<and> shapeCmds cfg p x y = []
         \<and> labelCmds cfg (p\<lparr> sex := s \<rparr>) x y = labelCmds cfg p x y"
  using assms fillCmds_unrecognized[OF assms]
  by (simp add: drawNode_def Let_def outlineCmds_def shapeCmds_def labelCmds_def)

theorem unrecognized_sex_node_witness:
  "sex unknown_sex \<noteq> ''M'' \<and> sex unknown_sex \<noteq> ''F''
   \<and> drawNode defaults None unknown_sex
       = ([BeginPath, SetStrokeStyle ''#333'', SetLineWidth 2, Stroke,
           SetShadowColor ''transparent'', SetShadowBlur 0,
           SetFillStyle ''#333'', SetFont ''12px Arial'', SetTextAlign ''center'',
           FillText ''U'' 50 90], None)"
proof -
  have s: "sex unknown_sex \<noteq> ''M''" "sex unknown_sex \<noteq> ''F''"
    by (simp_all add: unknown_sex_def plain_def)
  from unrecognized_sex_node [OF s, of defaults None] show ?thesis
    using s
    by (simp add: shadowCmds_def probandCmds_def labelCmds_def drawText_def
        getPixelCoords_def unknown_sex_def plain_def defaults_def)
qed

text \<open>
  Claim C8 as stated fails for the fill: \<open>unknown_sex\<close> has a phenotype whose style
  carries a fill colour, and no fill is drawn for it, while the same person with
  \<^verbatim>\<open>sex\<close> \<^verbatim>\<open>'M'\<close> gets its bar.
\<close>

theorem unrecognized_sex_fill_counterexample:
  "fillCmds defaults unknown_sex 50 50 = ([], None)
   \<and> fillCmds defaults (unknown_sex\<lparr> sex := ''M'' \<rparr>) 50 50
       = ([SetFillStyle ''#a9a9a9'', FillRect 25 25 50 50], None)"
  by (simp add: fillCmds_def drawPhenotypeFill_def bar_def styleOf_def unknown_sex_def
      plain_def defaults_def Let_def)

section \<open>Connection router\<close>

text \<open>The definitions to unfold when a render is evaluated on concrete data.\<close>

lemmas eval_defs = render_def fresh_def canvas800_def defaults_def plain_def
  optimizeLayout_def person_step_def obstacle_step_def truthy_def areSiblings_def
  sortParents_def setX_def targetPerson_def drawNode_def fillCmds_def drawPhenotypeFill_def
  wedge_def bar_def styleOf_def shadowCmds_def outlineCmds_def shapeCmds_def probandCmds_def
  labelCmds_def drawText_def getPixelCoords_def drawConnections_def routeConnections_def
  groupChildren_def addChild_def parentKeyOf_def sortPair_def partnerships_def
  partnership_step_def partnershipKey_def partnershipLine_def dropLine_def family_def
  at_index_def Let_def

lemma partnershipKey_commute: "partnershipKey a b = partnershipKey b a"
  by (simp add: partnershipKey_def insort_key.simps) (metis antisym_conv linear)

lemma segTag_partnershipLine [simp]: "segTag (partnershipLine cfg a m p1 p2) = Partnership a m"
  by (simp add: partnershipLine_def Let_def)

lemma segTag_dropLine [simp]: "segTag (dropLine cfg k p1 p2) = Drop k"
  by (simp add: dropLine_def Let_def)

lemma links_key:
  "links a b p \<Longrightarrow> mate p = Some m \<Longrightarrow> partnershipKey (person_id p) m = partnershipKey a b"
  using partnershipKey_commute by (auto simp: links_def references_def)

lemma partnership_fold_count:
  assumes "sameKeyOnly a b ps"
  shows "length (filter (isLineOf a b)
            (snd (foldl (partnership_step cfg coords cbp) (keys, segs) ps)))
         = length (filter (isLineOf a b) segs)
           + (if partnershipKey a b \<notin> set keys \<and> (\<exists>p \<in> set ps. links a b p)
                 \<and> coords a \<noteq> None \<and> coords b \<noteq> None then 1 else 0)"
  using assms
proof (induction ps arbitrary: keys segs)
  case Nil
  then show ?case by simp
next
  case (Cons p ps)
  let ?K = "partnershipKey a b"
  have rest: "sameKeyOnly a b ps"
    using Cons.prems by (simp add: sameKeyOnly_def)
  note IH = Cons.IH[OF rest]
  show ?case
  proof (cases "\<exists>m. mate p = Some m \<and> m \<noteq> []")
    case False
    then have step: "partnership_step cfg coords cbp (keys, segs) p = (keys, segs)"
      by (auto simp: partnership_step_def split: option.splits)
    have "\<not> links a b p"
      using False by (auto simp: links_def references_def)
    then show ?thesis using IH[of keys segs] step by simp
  next
    case True
    then obtain m where m: "mate p = Some m" "m \<noteq> []" by blast
    let ?k = "partnershipKey (person_id p) m"
    have keq: "?k = ?K \<longleftrightarrow> links a b p"
      using Cons.prems m links_key[of a b p m] by (auto simp: sameKeyOnly_def)
    show ?thesis
    proof (cases "?k \<notin> set keys \<and> coords (person_id p) \<noteq> None \<and> coords m \<noteq> None")
      case False
      then have step: "partnership_step cfg coords cbp (keys, segs) p = (keys, segs)"
        using m by (auto simp: partnership_step_def Let_def split: option.splits)
      have "links a b p \<Longrightarrow> ?K \<in> set keys \<or> coords a = None \<or> coords b = None"
        using False keq m by (auto simp: links_def references_def)
      then show ?thesis using IH[of keys segs] step by auto
    next
      case draws: True
      then obtain p1 p2 where c: "coords (person_id p) = Some p1" "coords m = Some p2"
        by auto
      let ?segs' = "segs @ [partnershipLine cfg (person_id p) m p1 p2]
                     @ (if map_of cbp ?k \<noteq> None then [dropLine cfg ?k p1 p2] else [])"
      have step: "partnership_step cfg coords cbp (keys, segs) p = (keys @ [?k], ?segs')"
        using m draws c by (simp add: partnership_step_def Let_def)
      have line: "isLineOf a b (partnershipLine cfg (person_id p) m p1 p2) \<longleftrightarrow> links a b p"
        using m by (auto simp: isLineOf_def links_def references_def)
      have drop: "\<not> isLineOf a b (dropLine cfg ?k p1 p2)"
        by (simp add: isLineOf_def)
      have cnt': "length (filter (isLineOf a b) ?segs')
                  = length (filter (isLineOf a b) segs) + (if links a b p then 1 else 0)"
        using line drop by simp
      show ?thesis
      proof (cases "links a b p")
        case True
        then have "?k = ?K" using keq by simp
        moreover have "coords a \<noteq> None \<and> coords b \<noteq> None"
          using True c m by (auto simp: links_def references_def)
        ultimately show ?thesis
          using IH[of "keys @ [?k]" ?segs'] step cnt' True draws by simp
      next
        case False
        then have "?k \<noteq> ?K" using keq by simp
        then show ?thesis
          using IH[of "keys @ [?k]" ?segs'] step cnt' False by simp
      qed
    qed
  qed
qed

lemma partnership_step_lineOK:
  assumes "\<forall>s \<in> set (snd acc). lineOK cfg coords s"
  shows "\<forall>s \<in> set (snd (partnership_step cfg coords cbp acc p)). lineOK cfg coords s"
  using assms
  by (auto simp: partnership_step_def Let_def lineOK_def split: option.splits)

lemma partnership_fold_lineOK:
  assumes "\<forall>s \<in> set (snd acc). lineOK cfg coords s"
  shows "\<forall>s \<in> set (snd (foldl (partnership_step cfg coords cbp) acc ps)). lineOK cfg coords s"
  using assms
proof (induction ps arbitrary: acc)
  case Nil
  then show ?case by simp
next
  case (Cons p ps)
  show ?case
    using Cons.IH[OF partnership_step_lineOK[OF Cons.prems]] by simp
qed

lemma family_tags:
  assumes "family cfg coords entry = Inr segs" "s \<in> set segs"
  shows "(\<exists>k. segTag s = Bus k) \<or> (\<exists>k c. segTag s = ChildDrop k c)"
  using assms
  by (auto simp: family_def Let_def split: option.splits)

lemma families_tags:
  assumes "s \<in> set (fst (families cfg coords entries))"
  shows "(\<exists>k. segTag s = Bus k) \<or> (\<exists>k c. segTag s = ChildDrop k c)"
  using assms
proof (induction entries)
  case Nil
  then show ?case by simp
next
  case (Cons entry entries)
  show ?case
  proof (cases "family cfg coords entry")
    case (Inl e)
    with Cons.prems show ?thesis by simp
  next
    case (Inr segs)
    with Cons.prems have "s \<in> set segs \<or> s \<in> set (fst (families cfg coords entries))"
      by (auto split: prod.splits)
    then show ?thesis using family_tags[OF Inr] Cons.IH by blast
  qed
qed

lemma routeConnections_segments:
  "fst (routeConnections cfg coords ps)
     = partnerships cfg coords (groupChildren ps) ps
       @ fst (families cfg coords (groupChildren ps))"
  by (simp add: routeConnections_def Let_def split: prod.splits)

lemma families_not_partnership:
  assumes "s \<in> set (fst (families cfg coords entries))"
  shows "segTag s \<noteq> Partnership c d"
  using families_tags[OF assms] by auto

lemma families_no_line: "filter (isLineOf a b) (fst (families cfg coords entries)) = []"
  using families_not_partnership[of _ cfg coords entries]
  by (auto simp: filter_empty_conv isLineOf_def)

lemma join2_inj:
  assumes "CHR ''-'' \<notin> set x" "CHR ''-'' \<notin> set x'"
    and "x @ ''-'' @ y = x' @ ''-'' @ y'"
  shows "x = x' \<and> y = y'"
proof -
  have "takeWhile (\<lambda>c. c \<noteq> CHR ''-'') (x @ ''-'' @ y) = x"
    using assms(1) by (subst takeWhile_append2) auto
  moreover have "takeWhile (\<lambda>c. c \<noteq> CHR ''-'') (x' @ ''-'' @ y') = x'"
    using assms(2) by (subst takeWhile_append2) auto
  ultimately have "x = x'" using assms(3) by simp
  then show ?thesis using assms(3) by simp
qed

lemma partnershipKey_eq:
  "partnershipKey a b = (if a \<le> b then a @ ''-'' @ b else b @ ''-'' @ a)"
  by (simp add: partnershipKey_def)

lemma partnershipKey_inj:
  assumes "CHR ''-'' \<notin> set a" "CHR ''-'' \<notin> set b" "CHR ''-'' \<notin> set c" "CHR ''-'' \<notin> set d"
    and "partnershipKey c d = partnershipKey a b"
  shows "(c = a \<and> d = b) \<or> (c = b \<and> d = a)"
  using assms join2_inj unfolding partnershipKey_eq
  by (metis (full_types))

text \<open>When no id holds a \<^verbatim>\<open>-\<close>, a partnership key determines its pair.\<close>

lemma hyphen_free_sameKeyOnly:
  assumes "CHR ''-'' \<notin> set a" "CHR ''-'' \<notin> set b"
    and "\<forall>p \<in> set ps. CHR ''-'' \<notin> set (person_id p)
           \<and> (\<forall>m. mate p = Some m \<longrightarrow> CHR ''-'' \<notin> set m)"
  shows "sameKeyOnly a b ps"
  unfolding sameKeyOnly_def links_def references_def
  using assms partnershipKey_inj by blast

text \<open>
  Claim C5, as amended. Take a pair \<open>{a, b}\<close> such that some person of the dataset is
  one of the two and names the other as its mate, and such that no other mate reference
  of the dataset produces the same partnership key (the two ids sorted and joined with
  \<^verbatim>\<open>-\<close>). Then the router draws exactly one partnership line for the pair when both
  ids have an entry in the coordinate index, and none when either has not, however many
  of the two references there are. Every partnership line drawn for ids \<open>c\<close> and \<open>d\<close>
  is the segment \<open>partnershipLine\<close>: from the right edge of the node with the smaller x
  to the left edge of the other node, each end at its own node's height, hence horizontal
  when the two are on one row.
\<close>

theorem partnership_line_once:
  assumes "\<exists>p \<in> set ps. links a b p" and "sameKeyOnly a b ps"
  shows "length (filter (isLineOf a b) (fst (routeConnections cfg coords ps)))
           = (if coords a \<noteq> None \<and> coords b \<noteq> None then 1 else 0)
         \<and> (\<forall>s \<in> set (fst (routeConnections cfg coords ps)). \<forall>c d.
               segTag s = Partnership c d \<longrightarrow>
                 (\<exists>p1 p2. coords c = Some p1 \<and> coords d = Some p2
                    \<and> s = partnershipLine cfg c d p1 p2))"
proof -
  have "length (filter (isLineOf a b) (partnerships cfg coords (groupChildren ps) ps))
          = (if coords a \<noteq> None \<and> coords b \<noteq> None then 1 else 0)"
    using partnership_fold_count[OF assms(2), of cfg coords "groupChildren ps" "[]" "[]"]
      assms(1)
    by (simp add: partnerships_def)
  then have count: "length (filter (isLineOf a b) (fst (routeConnections cfg coords ps)))
           = (if coords a \<noteq> None \<and> coords b \<noteq> None then 1 else 0)"
    by (simp add: routeConnections_segments families_no_line)
  have "\<forall>s \<in> set (partnerships cfg coords (groupChildren ps) ps). lineOK cfg coords s"
    unfolding partnerships_def by (rule partnership_fold_lineOK) simp
  moreover have "\<forall>s \<in> set (fst (families cfg coords (groupChildren ps))). lineOK cfg coords s"
    using families_not_partnership[of _ cfg coords "groupChildren ps"]
    by (auto simp: lineOK_def)
  ultimately have "\<forall>s \<in> set (fst (routeConnections cfg coords ps)). lineOK cfg coords s"
    by (auto simp: routeConnections_segments)
  with count show ?thesis unfolding lineOK_def by blast
qed

theorem partnership_line_once_witness:
  "(\<exists>p \<in> set couple. links ''kevin'' ''elsa'' p) \<and> sameKeyOnly ''kevin'' ''elsa'' couple
   \<and> length (filter (isLineOf ''kevin'' ''elsa'')
        (fst (routeConnections defaults (map_of couple_coords) couple))) = 1
   \<and> length (filter (isLineOf ''kevin'' ''elsa'')
        (fst (routeConnections defaults Map.empty couple))) = 0"
proof -
  have l: "\<exists>p \<in> set couple. links ''kevin'' ''elsa'' p"
    by (simp add: couple_def plain_def links_def references_def)
  have k: "sameKeyOnly ''kevin'' ''elsa'' couple"
    by (simp add: sameKeyOnly_def couple_def plain_def links_def references_def)
  from partnership_line_once [OF l k, of defaults "map_of couple_coords"]
       partnership_line_once [OF l k, of defaults Map.empty]
  show ?thesis using l k by (simp add: couple_coords_def)
qed

text \<open>
  Claim C5 as stated fails when two different pairs have the same key: in
  \<open>colliding_couples\<close> the pairs \<open>{a-b, c}\<close> and \<open>{a, b-c}\<close> both have the key
  \<^verbatim>\<open>a-b-c\<close>. All four persons have coordinates, \<open>a\<close> names \<open>b-c\<close> as its mate, and
  the only partnership line drawn is the one of the first pair. It also fails in calling
  the segment horizontal: for \<open>slanted_couple\<close>, whose partners stand on different
  rows, the line runs from height 50 to height 170.
\<close>

theorem partnership_line_once_counterexample:
  "links ''a'' ''b-c'' (colliding_couples ! 2)
   \<and> map fst (nodeCoords (fst (render (fresh colliding_couples)))) = [''a-b'', ''c'', ''a'', ''b-c'']
   \<and> fst (routeConnections defaults
            (map_of (nodeCoords (fst (render (fresh colliding_couples))))) colliding_couples)
       = [Segment (Partnership ''a-b'' ''c'') 75 50 125 50]
   \<and> fst (routeConnections defaults
            (map_of (nodeCoords (fst (render (fresh slanted_couple))))) slanted_couple)
       = [Segment (Partnership ''kevin'' ''elsa'') 175 50 225 170]"
  by (simp add: eval_defs colliding_couples_def slanted_couple_def links_def references_def
      upt_rec)

section \<open>Families\<close>


lemma family_unresolved_parent:
  assumes "coords (at_index (split_on CHR ''-'' k) 0) = None
           \<or> coords (at_index (split_on CHR ''-'' k) 1) = None"
  shows "family cfg coords (k, kids) = Inl TypeError"
  using assms by (auto simp: family_def Let_def split: option.splits)

text \<open>
  Claim C1: what the code does. The dataset \<open>orphan\<close> is one child whose
  \<^verbatim>\<open>parents\<close> are two ids that are not in the dataset, so that neither has an entry in
  the coordinate index. The render pass of a new instance on it does not complete: after
  the node and the two style assignments of the router, reading \<^verbatim>\<open>p1.y\<close> in the
  family loop throws a \<^verbatim>\<open>TypeError\<close>.
\<close>

theorem render_unresolved_parent_fails:
  "snd (render (fresh orphan))
     = ([ClearRect 0 0 800 500, BeginPath, SetStrokeStyle ''#333'', SetLineWidth 2,
         Rect 25 145 50 50, Stroke, SetShadowColor ''transparent'', SetShadowBlur 0,
         SetFillStyle ''#333'', SetFont ''12px Arial'', SetTextAlign ''center'',
         FillText ''kid'' 50 210, SetStrokeStyle ''#333'', SetLineWidth 2],
        Some TypeError)"
  by (simp add: eval_defs orphan_def upt_rec)

text \<open>The same throw with both parents in the dataset, when their ids hold a \<^verbatim>\<open>-\<close>:
  the key \<^verbatim>\<open>I-1-I-2\<close> is split into \<^verbatim>\<open>I\<close>, \<^verbatim>\<open>1\<close>, \<^verbatim>\<open>I\<close>, \<^verbatim>\<open>2\<close>, and there is no
  coordinate for \<^verbatim>\<open>I\<close>. The partnership line and the drop line are drawn before it.\<close>

lemma render_numbered_family_fails:
  "snd (snd (render (fresh numbered_family))) = Some TypeError
   \<and> fst (routeConnections defaults
            (map_of (nodeCoords (fst (render (fresh numbered_family))))) numbered_family)
       = [Segment (Partnership ''I-2'' ''I-1'') 75 50 125 50,
          Segment (Drop ''I-1-I-2'') 100 50 100 110]"
  by (simp add: eval_defs numbered_family_def upt_rec)

lemma no_mate_no_partnership_segments:
  assumes "\<forall>p \<in> set ps. mate p = None"
  shows "foldl (partnership_step cfg coords cbp) acc ps = acc"
  using assms by (induction ps arbitrary: acc) (simp_all add: partnership_step_def)

text \<open>
  Claim C7: what the code does. In \<open>unlinked_family\<close> the child \<open>C\<close> has the parents
  \<open>A\<close> and \<open>B\<close>, all three with coordinates, and neither parent names the other as its
  mate. The render completes and routes two segments for the family, the bus line and
  the child's drop line; no segment starts at the parents' midpoint on the parents' row,
  pixel \<open>(100, 50)\<close>. In \<open>linked_family\<close>, which differs only in \<open>B\<close> naming \<open>A\<close> as
  its mate, the sibship drop line from \<open>(100, 50)\<close> down to \<open>(100, 110)\<close> is routed.
\<close>

theorem sibship_drop_line_needs_mate:
  "fst (routeConnections defaults
          (map_of (nodeCoords (fst (render (fresh unlinked_family))))) unlinked_family)
     = [Segment (Bus ''A-B'') 100 110 100 110,
        Segment (ChildDrop ''A-B'' ''C'') 100 110 100 145]
   \<and> snd (snd (render (fresh unlinked_family))) = None
   \<and> MoveTo 100 50 \<notin> set (fst (snd (render (fresh unlinked_family))))
   \<and> fst (routeConnections defaults
            (map_of (nodeCoords (fst (render (fresh linked_family))))) linked_family)
       = [Segment (Partnership ''B'' ''A'') 75 50 125 50,
          Segment (Drop ''A-B'') 100 50 100 110,
          Segment (Bus ''A-B'') 100 110 100 110,
          Segment (ChildDrop ''A-B'' ''C'') 100 110 100 145]"
  by (simp add: eval_defs unlinked_family_def linked_family_def upt_rec)

section \<open>Render\<close>

lemma same_drawing_refl: "same_drawing p p"
  by (simp add: same_drawing_def)

lemma same_drawing_trans: "same_drawing p q \<Longrightarrow> same_drawing q r \<Longrightarrow> same_drawing p r"
  by (simp add: same_drawing_def)

lemma same_drawing_list_trans:
  "list_all2 same_drawing ps qs \<Longrightarrow> list_all2 same_drawing qs rs \<Longrightarrow> list_all2 same_drawing ps rs"
  using list_all2_trans[of same_drawing same_drawing same_drawing] same_drawing_trans by blast

lemma same_drawing_sortPair: "same_drawing p (sortPair p)"
  by (simp add: same_drawing_def sortPair_def sorted_sort_id split: option.splits)

lemma same_drawing_map_sortPair: "list_all2 same_drawing ps (map sortPair ps)"
  by (simp add: list_all2_conv_all_nth same_drawing_sortPair)

lemma frame_rel_same_drawing:
  assumes "frame_rel p p'" "x_coord (pos p') = x_coord (pos p)"
  shows "same_drawing p p'"
  using assms unfolding frame_rel_def same_drawing_def
  by (auto simp: sort_parents_idem)

lemma frame_rel_list_same_drawing:
  assumes "list_all2 frame_rel ps ps'" "xs_of ps' = xs_of ps"
  shows "list_all2 same_drawing ps ps'"
proof -
  have len: "length ps = length ps'" using assms(1) by (rule list_all2_lengthD)
  have "\<And>i. i < length ps \<Longrightarrow> same_drawing (ps ! i) (ps' ! i)"
  proof -
    fix i assume i: "i < length ps"
    have "xs_of ps' ! i = xs_of ps ! i" using assms(2) by simp
    then have "x_coord (pos (ps' ! i)) = x_coord (pos (ps ! i))"
      using i len by (simp add: xs_of_def)
    then show "same_drawing (ps ! i) (ps' ! i)"
      using frame_rel_same_drawing list_all2_nthD[OF assms(1) i] by blast
  qed
  then show ?thesis using len by (simp add: list_all2_conv_all_nth)
qed

lemma drawNode_same:
  assumes "same_drawing p p'"
  shows "drawNode cfg tid p' = drawNode cfg tid p"
proof -
  have e: "person_id p' = person_id p" "name p' = name p" "sex p' = sex p" "pos p' = pos p"
    "phenotypes p' = phenotypes p" "isProband p' = isProband p"
    using assms by (simp_all add: same_drawing_def)
  have f: "drawPhenotypeFill cfg p' phs x y = drawPhenotypeFill cfg p phs x y" for phs x y
    unfolding drawPhenotypeFill_def e by (rule refl)
  have "fillCmds cfg p' x y = fillCmds cfg p x y" for x y
    unfolding fillCmds_def e f by (rule refl)
  moreover have "shadowCmds tid p' = shadowCmds tid p"
    unfolding shadowCmds_def e by (rule refl)
  moreover have "outlineCmds cfg p' x y = outlineCmds cfg p x y" for x y
    unfolding outlineCmds_def shapeCmds_def e by (rule refl)
  moreover have "probandCmds cfg p' x y = probandCmds cfg p x y" for x y
    unfolding probandCmds_def e by (rule refl)
  moreover have "labelCmds cfg p' x y = labelCmds cfg p x y" for x y
    unfolding labelCmds_def e by (rule refl)
  ultimately show ?thesis
    unfolding drawNode_def e by simp
qed

lemma drawNodes_drawn_coords:
  "snd (drawNodes cfg tid c ps) = snd (drawNodes cfg tid c' ps)"
proof (induction ps arbitrary: c c')
  case Nil
  then show ?case by simp
next
  case (Cons p ps)
  let ?u = "\<lambda>c. AList.update (person_id p)
               (getPixelCoords cfg (x_coord (pos p)) (y_coord (pos p))) c"
  have "snd (drawNodes cfg tid (?u c) ps) = snd (drawNodes cfg tid (?u c') ps)"
    by (rule Cons.IH)
  then show ?case
    by (auto simp: Let_def split: prod.splits option.splits)
qed

lemma drawNodes_same:
  assumes "list_all2 same_drawing ps ps'"
  shows "drawNodes cfg tid c ps' = drawNodes cfg tid c ps"
  using assms
proof (induction arbitrary: c rule: list_all2_induct)
  case Nil
  then show ?case by simp
next
  case (Cons p ps p' ps')
  have "drawNode cfg tid p' = drawNode cfg tid p"
    using Cons.hyps(1) by (rule drawNode_same)
  moreover have "person_id p' = person_id p" "pos p' = pos p"
    using Cons.hyps(1) by (simp_all add: same_drawing_def)
  ultimately show ?case using Cons.IH by simp
qed

lemma writeAll_conv: "writeAll m kvs = m ++ map_of (rev kvs)"
proof (induction kvs arbitrary: m)
  case Nil
  then show ?case by (simp add: writeAll_def)
next
  case (Cons kv kvs)
  have "writeAll m (kv # kvs) = writeAll (m(fst kv \<mapsto> snd kv)) kvs"
    by (simp add: writeAll_def)
  also have "\<dots> = m(fst kv \<mapsto> snd kv) ++ map_of (rev kvs)"
    by (rule Cons.IH)
  also have "\<dots> = m ++ map_of (rev (kv # kvs))"
    by (cases kv) (auto simp: fun_eq_iff map_add_def split: option.splits)
  finally show ?case .
qed

lemma writeAll_idem: "writeAll (writeAll m kvs) kvs = writeAll m kvs"
  by (simp add: writeAll_conv fun_eq_iff map_add_def split: option.splits)

lemma drawNodes_coords:
  assumes "snd (snd (drawNodes cfg tid c ps)) = None"
  shows "map_of (fst (drawNodes cfg tid c ps)) = writeAll (map_of c) (pixels cfg ps)"
  using assms
proof (induction ps arbitrary: c)
  case Nil
  then show ?case by (simp add: writeAll_def pixels_def)
next
  case (Cons p ps)
  let ?c' = "AList.update (person_id p)
               (getPixelCoords cfg (x_coord (pos p)) (y_coord (pos p))) c"
  obtain c2 cs2 e2 where r: "drawNodes cfg tid ?c' ps = (c2, cs2, e2)"
    by (cases "drawNodes cfg tid ?c' ps") auto
  from Cons.prems obtain cs where n: "drawNode cfg tid p = (cs, None)"
    by (auto simp: Let_def split: prod.splits option.splits)
  with Cons.prems r have "e2 = None"
    by (simp add: Let_def)
  then have "map_of c2 = writeAll (map_of ?c') (pixels cfg ps)"
    using Cons.IH[of ?c'] r by simp
  then show ?case using n r
    by (simp add: Let_def writeAll_def pixels_def update_conv')
qed

lemma parentKeyOf_same:
  assumes "same_drawing p p'"
  shows "parentKeyOf p' = parentKeyOf p"
proof -
  have s: "map_option sort (parents p') = map_option sort (parents p)"
    using assms by (simp add: same_drawing_def)
  show ?thesis
  proof (cases "parents p")
    case None
    with s show ?thesis by (simp add: parentKeyOf_def)
  next
    case (Some a)
    with s obtain b where b: "parents p' = Some b" "sort b = sort a" by auto
    then have "length b = length a" by (metis length_sort)
    with Some b show ?thesis by (simp add: parentKeyOf_def)
  qed
qed

lemma addChild_same:
  assumes "same_drawing p p'"
  shows "addChild cbp p' = addChild cbp p"
proof -
  have e: "person_id p' = person_id p"
    using assms by (simp add: same_drawing_def)
  show ?thesis
    unfolding addChild_def parentKeyOf_same[OF assms] e by (rule refl)
qed

lemma groupChildren_fold_same:
  assumes "list_all2 same_drawing ps ps'"
  shows "foldl addChild cbp ps' = foldl addChild cbp ps"
  using assms
  by (induction arbitrary: cbp rule: list_all2_induct) (simp_all add: addChild_same)

lemma partnership_step_same:
  assumes "same_drawing p p'"
  shows "partnership_step cfg coords cbp acc p' = partnership_step cfg coords cbp acc p"
proof -
  have e: "person_id p' = person_id p" "mate p' = mate p"
    using assms by (simp_all add: same_drawing_def)
  show ?thesis
    unfolding partnership_step_def e by (rule refl)
qed

lemma partnership_fold_same:
  assumes "list_all2 same_drawing ps ps'"
  shows "foldl (partnership_step cfg coords cbp) acc ps'
         = foldl (partnership_step cfg coords cbp) acc ps"
  using assms
  by (induction arbitrary: acc rule: list_all2_induct) (simp_all add: partnership_step_same)

lemma routeConnections_same:
  assumes "list_all2 same_drawing ps ps'"
  shows "routeConnections cfg coords ps' = routeConnections cfg coords ps"
  using groupChildren_fold_same[OF assms] partnership_fold_same[OF assms]
  by (simp add: routeConnections_def groupChildren_def partnerships_def)

lemma drawConnections_same:
  assumes "list_all2 same_drawing ps ps'"
  shows "snd (drawConnections cfg coords ps') = snd (drawConnections cfg coords ps)"
  using routeConnections_same[OF assms]
  by (simp add: drawConnections_def split: prod.splits)

lemma pixels_same:
  assumes "list_all2 same_drawing ps ps'"
  shows "pixels cfg ps' = pixels cfg ps"
  using assms
  by (induction rule: list_all2_induct) (simp_all add: pixels_def same_drawing_def)

lemma targetPerson_cong:
  assumes "dragTarget s' = dragTarget s" "data s' = data s"
  shows "targetPerson s' = targetPerson s"
  unfolding targetPerson_def assms by (rule refl)

lemma targetPerson_id_same:
  assumes "list_all2 same_drawing ps ps'"
  shows "map_option person_id (targetPerson (s\<lparr> data := ps' \<rparr>))
         = map_option person_id (targetPerson (s\<lparr> data := ps \<rparr>))"
proof -
  have len: "length ps = length ps'" using assms by (rule list_all2_lengthD)
  have "\<And>i. i < length ps \<Longrightarrow> person_id (ps' ! i) = person_id (ps ! i)"
    using list_all2_nthD[OF assms] by (simp add: same_drawing_def)
  then show ?thesis using len
    by (auto simp: targetPerson_def split: option.splits target.splits)
qed

lemma optimizeLayout_same_drawing:
  assumes "xs_of (optimizeLayout cfg ps) = xs_of ps"
  shows "list_all2 same_drawing ps (optimizeLayout cfg ps)"
  using frame_rel_list_same_drawing[OF _ assms] optimizeLayout_inv[of cfg ps] by blast

text \<open>
  Claim C9, as amended. Invoking render twice in succession, with no mutation from
  outside in between, issues the identical sequence of context calls both times (the
  clear first), and fails the second time exactly as it did the first, provided the
  optimize pass embedded in the second render leaves every x-coordinate as it finds it;
  this is so in particular whenever \<^verbatim>\<open>autoLayoutOptimize\<close> is off. Nothing is promised when
  the second pass swaps again.
\<close>

theorem render_twice_same_commands:
  assumes "\<not> autoLayoutOptimize (config s)
           \<or> xs_of (optimizeLayout (config s) (data (fst (render s))))
               = xs_of (data (fst (render s)))"
  shows "snd (render (fst (render s))) = snd (render s)"
proof -
  have assms': "xs_of (optimizeLayout (config s) (data (fst (render s))))
                  = xs_of (data (fst (render s)))"
    using assms by (auto simp: optimizeLayout_def)
  let ?cfg = "config s"
  let ?d1 = "optimizeLayout ?cfg (data s)"
  let ?tid = "map_option person_id (targetPerson (s\<lparr> data := ?d1 \<rparr>))"
  let ?clear = "[ClearRect 0 0 (canvas_width (canvas s)) (canvas_height (canvas s))]"
  obtain c1 n1 e1 where nodes: "drawNodes ?cfg ?tid (nodeCoords s) ?d1 = (c1, n1, e1)"
    by (cases "drawNodes ?cfg ?tid (nodeCoords s) ?d1") auto
  show ?thesis
  proof (cases e1)
    case (Some e)
    let ?s1 = "s\<lparr> data := ?d1, nodeCoords := c1 \<rparr>"
    have r1: "render s = (?s1, ?clear @ n1, Some e)"
      using nodes Some by (simp add: render_def Let_def)
    let ?d3 = "optimizeLayout ?cfg ?d1"
    have fp: "xs_of ?d3 = xs_of ?d1"
      using assms' r1 by simp
    have sd: "list_all2 same_drawing ?d1 ?d3"
      by (rule optimizeLayout_same_drawing[OF fp])
    have "targetPerson (?s1\<lparr> data := ?d3 \<rparr>) = targetPerson (s\<lparr> data := ?d3 \<rparr>)"
      by (rule targetPerson_cong) simp_all
    then have tid: "map_option person_id (targetPerson (?s1\<lparr> data := ?d3 \<rparr>)) = ?tid"
      using targetPerson_id_same[OF sd, of s] by simp
    have "snd (drawNodes ?cfg ?tid c1 ?d3) = snd (drawNodes ?cfg ?tid (nodeCoords s) ?d1)"
      using drawNodes_same[OF sd, of ?cfg ?tid c1]
        drawNodes_drawn_coords[of ?cfg ?tid c1 ?d1 "nodeCoords s"] by simp
    then have "snd (drawNodes ?cfg ?tid c1 ?d3) = (n1, Some e)"
      using nodes Some by simp
    then have "snd (render ?s1) = (?clear @ n1, Some e)"
      using tid by (auto simp: render_def Let_def split: prod.splits option.splits)
    then show ?thesis using r1 by simp
  next
    case None
    obtain d2 cs' e' where conn: "drawConnections ?cfg (map_of c1) ?d1 = (d2, cs', e')"
      by (cases "drawConnections ?cfg (map_of c1) ?d1") auto
    have d2: "d2 = map sortPair ?d1"
      using conn by (simp add: drawConnections_def split: prod.splits)
    let ?s1 = "s\<lparr> data := ?d1, nodeCoords := c1, data := d2 \<rparr>"
    have r1: "render s = (?s1, ?clear @ n1 @ cs', e')"
      using nodes None conn by (simp add: render_def Let_def)
    let ?d3 = "optimizeLayout ?cfg d2"
    have fp: "xs_of ?d3 = xs_of d2"
      using assms' r1 by simp
    have sd12: "list_all2 same_drawing ?d1 d2"
      unfolding d2 by (rule same_drawing_map_sortPair)
    have sd: "list_all2 same_drawing ?d1 ?d3"
      using same_drawing_list_trans[OF sd12 optimizeLayout_same_drawing[OF fp]] .
    have "targetPerson (?s1\<lparr> data := ?d3 \<rparr>) = targetPerson (s\<lparr> data := ?d3 \<rparr>)"
      by (rule targetPerson_cong) simp_all
    then have tid: "map_option person_id (targetPerson (?s1\<lparr> data := ?d3 \<rparr>)) = ?tid"
      using targetPerson_id_same[OF sd, of s] by simp
    have same_nodes: "drawNodes ?cfg ?tid c1 ?d3 = drawNodes ?cfg ?tid c1 ?d1"
      by (rule drawNodes_same[OF sd])
    have drawn: "snd (drawNodes ?cfg ?tid c1 ?d1) = (n1, None)"
      using drawNodes_drawn_coords[of ?cfg ?tid c1 ?d1 "nodeCoords s"] nodes None by simp
    obtain c3 where n3: "drawNodes ?cfg ?tid c1 ?d3 = (c3, n1, None)"
      using same_nodes drawn by (cases "drawNodes ?cfg ?tid c1 ?d1") auto
    have m1: "map_of c1 = writeAll (map_of (nodeCoords s)) (pixels ?cfg ?d1)"
      using drawNodes_coords[of ?cfg ?tid "nodeCoords s" ?d1] nodes None by simp
    have "map_of c3 = writeAll (map_of c1) (pixels ?cfg ?d3)"
      using drawNodes_coords[of ?cfg ?tid c1 ?d3] n3 by simp
    also have "\<dots> = writeAll (map_of c1) (pixels ?cfg ?d1)"
      by (simp add: pixels_same[OF sd])
    also have "\<dots> = map_of c1"
      unfolding m1 by (rule writeAll_idem)
    finally have m3: "map_of c3 = map_of c1" .
    have "snd (drawConnections ?cfg (map_of c3) ?d3) = (cs', e')"
      using drawConnections_same[OF sd, of ?cfg "map_of c1"] conn m3 by simp
    then have "snd (render ?s1) = (?clear @ n1 @ cs', e')"
      using tid n3 by (auto simp: render_def Let_def split: prod.splits option.splits)
    then show ?thesis using r1 by simp
  qed
qed


theorem render_twice_same_commands_witness:
  "xs_of (optimizeLayout (config (fresh couple)) (data (fst (render (fresh couple)))))
     = xs_of (data (fst (render (fresh couple))))
   \<and> snd (render (fst (render (fresh couple)))) = snd (render (fresh couple))"
proof -
  have h: "xs_of (optimizeLayout (config (fresh couple)) (data (fst (render (fresh couple)))))
             = xs_of (data (fst (render (fresh couple))))"
    by (simp add: eval_defs couple_def upt_rec xs_of_def)
  then have "\<not> autoLayoutOptimize (config (fresh couple))
      \<or> xs_of (optimizeLayout (config (fresh couple)) (data (fst (render (fresh couple)))))
          = xs_of (data (fst (render (fresh couple))))"
    by (rule disjI2)
  from h render_twice_same_commands [OF this] show ?thesis
    by (rule conjI)
qed

text \<open>
  Claim C9 as stated fails: the optimize pass of a second render can swap again. On
  \<open>two_between\<close> the first render leaves \<open>P\<close> at x = 2 and draws its label at pixel
  x = 250; the second render, with nothing changed in between, moves \<open>P\<close> to x = 1 and
  no longer draws that label there.
\<close>

theorem render_twice_counterexample:
  "xs_of (data (fst (render (fresh two_between)))) = [0, 1, 2, 0, 3, 1]
   \<and> xs_of (data (fst (render (fst (render (fresh two_between)))))) = [0, 1, 1, 0, 3, 2]
   \<and> FillText ''P'' 250 210 \<in> set (fst (snd (render (fresh two_between))))
   \<and> FillText ''P'' 250 210 \<notin> set (fst (snd (render (fst (render (fresh two_between))))))"
  by (simp add: eval_defs two_between_def upt_rec xs_of_def)

section \<open>Interaction\<close>

text \<open>The further definitions to unfold when events are evaluated on concrete data.\<close>

lemmas event_defs = run_def handleMouseDown_def handleMouseMove_def handleMouseUp_def
  findNodeAtPosition_def forin_order_def is_array_index_def is_digit_def decimal_def
  getMousePosition_def dragTo_def setTargetPos_def pixelToGrid_def pointer_def
  setData_def resetPositions_def detach_def toggleAutoLayoutOptimize_def round_def

lemma nonneg_optimizeLayout:
  assumes "nonneg ps"
  shows "nonneg (optimizeLayout cfg ps)"
proof -
  let ?ps' = "optimizeLayout cfg ps"
  have inv: "length ?ps' = length ps" "list_all2 frame_rel ps ?ps'"
    "mset (xs_of ?ps') = mset (xs_of ps)"
    using optimizeLayout_inv[of cfg ps] by simp_all
  have xs: "set (xs_of ?ps') = set (xs_of ps)"
    using inv(3) by (rule mset_eq_setD)
  show ?thesis
    unfolding nonneg_def
  proof
    fix p' assume p': "p' \<in> set ?ps'"
    then have "x_coord (pos p') \<in> set (xs_of ?ps')" by (simp add: xs_of_def)
    then have "x_coord (pos p') \<in> set (xs_of ps)" using xs by simp
    then have x: "0 \<le> x_coord (pos p')"
      using assms by (auto simp: xs_of_def nonneg_def)
    from p' obtain i where i: "i < length ?ps'" "?ps' ! i = p'"
      by (auto simp: in_set_conv_nth)
    then have "frame_rel (ps ! i) p'"
      using list_all2_nthD2[OF inv(2), of i] by simp
    then have "y_coord (pos p') = y_coord (pos (ps ! i))"
      by (simp add: frame_rel_def)
    moreover have "ps ! i \<in> set ps" using i inv(1) by simp
    ultimately have "0 \<le> y_coord (pos p')"
      using assms by (auto simp: nonneg_def)
    with x show "0 \<le> x_coord (pos p') \<and> 0 \<le> y_coord (pos p')" ..
  qed
qed

lemma nonneg_sortPair: "nonneg ps \<Longrightarrow> nonneg (map sortPair ps)"
  by (auto simp: nonneg_def sortPair_def split: option.splits)

lemma render_data:
  "data (fst (render s)) = optimizeLayout (config s) (data s)
   \<or> data (fst (render s)) = map sortPair (optimizeLayout (config s) (data s))"
  by (auto simp: render_def drawConnections_def Let_def split: prod.splits option.splits)

lemma nonneg_render:
  assumes "nonneg (data s)"
  shows "nonneg (data (fst (render s)))"
  using render_data[of s] nonneg_optimizeLayout[OF assms] nonneg_sortPair by metis

lemma nonneg_update:
  assumes "nonneg ps" "0 \<le> x_coord (pos p)" "0 \<le> y_coord (pos p)"
  shows "nonneg (ps[i := p])"
  using assms unfolding nonneg_def by (auto dest: set_update_subset_insert[THEN subsetD])

lemma dragTo_InData:
  assumes "dragTarget s = Some (InData i)"
    and "hSpacing (config s) \<noteq> 0" and "vSpacing (config s) \<noteq> 0"
  shows "data (dragTo ev s)
           = (data s)[i := (data s ! i)\<lparr> pos :=
               \<lparr> x_coord = of_int (max 0 (round
                    ((clientX ev - rect_left ev - x_coord (dragOffset s)
                        - pad_left (padding (config s))) / hSpacing (config s)))),
                 y_coord = of_int (max 0 (round
                    ((clientY ev - rect_top ev - y_coord (dragOffset s)
                        - pad_top (padding (config s))) / vSpacing (config s)))) \<rparr> \<rparr>]"
  using assms
  by (simp add: dragTo_def setTargetPos_def pixelToGrid_def getMousePosition_def Let_def)

text \<open>
  Claim C6, as amended. For every pointer-move event while a node of the working copy
  is being dragged, with spacings that are not zero, the handler sets the dragged
  person's grid position to \<open>(max gx 0, max gy 0)\<close>, where \<open>(gx, gy)\<close> is the pointer
  position minus the drag offset, converted by the inverse transform with rounding, and
  then renders; no other person's position is written by the assignment, so both
  coordinates of the dragged person are non-negative before the render. The positions
  of the other persons are not clamped: if both coordinates of every person were
  non-negative before the event, they are so after it, render included.
\<close>

theorem drag_clamps_dragged_person:
  assumes "isDragging s" and "dragTarget s = Some (InData i)" and "i < length (data s)"
    and "hSpacing (config s) \<noteq> 0" and "vSpacing (config s) \<noteq> 0"
  shows "handleMouseMove ev s = render (dragTo ev s)
       \<and> data (dragTo ev s)
           = (data s)[i := (data s ! i)\<lparr> pos :=
               \<lparr> x_coord = of_int (max 0 (round
                    ((clientX ev - rect_left ev - x_coord (dragOffset s)
                        - pad_left (padding (config s))) / hSpacing (config s)))),
                 y_coord = of_int (max 0 (round
                    ((clientY ev - rect_top ev - y_coord (dragOffset s)
                        - pad_top (padding (config s))) / vSpacing (config s)))) \<rparr> \<rparr>]
       \<and> 0 \<le> x_coord (pos (data (dragTo ev s) ! i))
       \<and> 0 \<le> y_coord (pos (data (dragTo ev s) ! i))
       \<and> (nonneg (data s) \<longrightarrow> nonneg (data (fst (handleMouseMove ev s))))"
proof -
  have t: "targetPerson s \<noteq> None"
    using assms(2,3) by (simp add: targetPerson_def)
  have move: "handleMouseMove ev s = render (dragTo ev s)"
    using assms(1) t by (simp add: handleMouseMove_def)
  note d = dragTo_InData[OF assms(2,4,5), of ev]
  have xy: "0 \<le> x_coord (pos (data (dragTo ev s) ! i))"
           "0 \<le> y_coord (pos (data (dragTo ev s) ! i))"
    unfolding d using assms(3) by simp_all
  have "nonneg (data (dragTo ev s))" if "nonneg (data s)"
    unfolding d using that by (intro nonneg_update) simp_all
  then have "nonneg (data s) \<longrightarrow> nonneg (data (fst (handleMouseMove ev s)))"
    unfolding move using nonneg_render by blast
  with move d xy show ?thesis by blast
qed

theorem drag_clamps_dragged_person_witness:
  "isDragging (run (fresh couple) [Render, MouseDown (pointer 150 50)])
   \<and> dragTarget (run (fresh couple) [Render, MouseDown (pointer 150 50)]) = Some (InData 0)
   \<and> 0 < length (data (run (fresh couple) [Render, MouseDown (pointer 150 50)]))
   \<and> hSpacing (config (run (fresh couple) [Render, MouseDown (pointer 150 50)])) \<noteq> 0
   \<and> vSpacing (config (run (fresh couple) [Render, MouseDown (pointer 150 50)])) \<noteq> 0
   \<and> 0 \<le> x_coord (pos (data (dragTo (pointer (-400) 50)
                (run (fresh couple) [Render, MouseDown (pointer 150 50)])) ! 0))
   \<and> handleMouseMove (pointer (-400) 50) (run (fresh couple) [Render, MouseDown (pointer 150 50)])
       = render (dragTo (pointer (-400) 50)
           (run (fresh couple) [Render, MouseDown (pointer 150 50)]))"
proof -
  let ?s = "run (fresh couple) [Render, MouseDown (pointer 150 50)]"
  have h: "isDragging ?s" "dragTarget ?s = Some (InData 0)" "0 < length (data ?s)"
    "hSpacing (config ?s) \<noteq> 0" "vSpacing (config ?s) \<noteq> 0"
    by (simp_all add: eval_defs event_defs couple_def upt_rec)
  from drag_clamps_dragged_person [OF h, of "pointer (-400) 50"] h show ?thesis
    by blast
qed

text \<open>
  Claim C6 as stated fails in its consequence: a drag clamps the dragged person only.
  In \<open>left_of_origin\<close> the person \<open>A\<close> was given x = -1 in the dataset; after a
  render, a press on \<open>B\<close> and a pointer move that drags \<open>B\<close> to the grid cell
  \<open>(3, 0)\<close>, \<open>A\<close> is still at x = -1.
\<close>

theorem drag_leaves_others_counterexample:
  "map pos (data (run (fresh left_of_origin)
       [Render, MouseDown (pointer 250 50), MouseMove (pointer 310 50)]))
     = [\<lparr> x_coord = -1, y_coord = 0 \<rparr>, \<lparr> x_coord = 3, y_coord = 0 \<rparr>]
   \<and> x_coord (pos (data (run (fresh left_of_origin)
       [Render, MouseDown (pointer 250 50), MouseMove (pointer 310 50)]) ! 0)) < 0"
  by (simp add: eval_defs event_defs left_of_origin_def upt_rec)

section \<open>The original snapshot\<close>

lemma render_originalData [simp]: "originalData (fst (render s)) = originalData s"
  by (simp add: render_def Let_def split: prod.splits option.splits)

lemma setTargetPos_originalData [simp]: "originalData (setTargetPos g s) = originalData s"
  by (simp add: setTargetPos_def split: option.splits target.splits)

lemma dragTo_originalData [simp]: "originalData (dragTo ev s) = originalData s"
  by (simp add: dragTo_def Let_def split: option.splits)

lemma handleMouseDown_originalData [simp]:
  "originalData (fst (handleMouseDown ev s)) = originalData s"
  by (simp add: handleMouseDown_def Let_def split: sum.splits option.splits)

lemma handleMouseMove_originalData [simp]:
  "originalData (fst (handleMouseMove ev s)) = originalData s"
  by (simp add: handleMouseMove_def Let_def split: sum.splits)

lemma handleMouseUp_originalData [simp]:
  "originalData (fst (handleMouseUp s)) = originalData s"
  by (simp add: handleMouseUp_def)






end
